theory Spec2Isabelle
  imports
    Main
    "HOL-Library.Extended_Nat"
    "HOL-Library.Char_ord"
    "HOL-Library.List_Lexorder"
    "HOL-Library.Multiset"
begin

section \<open>JavaScript values and promises\<close>

text \<open>
  The values that travel through the modelled code: the JSON primitives, \<open>undefined\<close>,
  and objects, which JavaScript compares by reference. Numbers are the integers; fractions,
  \<open>NaN\<close> as a stored value and the infinities are outside the model.
\<close>

datatype jsval =
    JUndefined
  | JNull
  | JBool bool
  | JNum int
  | JStr string
  | JObject nat

text \<open>The truthiness that \<open>if (x)\<close>, \<open>!x\<close> and \<open>x ? a : b\<close> test.\<close>

fun js_truthy :: "jsval \<Rightarrow> bool" where
  "js_truthy JUndefined = False"
| "js_truthy JNull = False"
| "js_truthy (JBool b) = b"
| "js_truthy (JNum n) = (n \<noteq> 0)"
| "js_truthy (JStr s) = (s \<noteq> [])"
| "js_truthy (JObject r) = True"

text \<open>
  An awaited promise, by the way it settles. \<open>await p\<close> continues with the value of
  \<open>Resolves v\<close> and throws the reason of \<open>Rejects e\<close>.
\<close>

datatype 'a promise = Resolves 'a | Rejects jsval

definition PROMISE_RESOLVE_VOID :: "unit promise" where
  "PROMISE_RESOLVE_VOID = Resolves ()"

section \<open>The websocket server: \<open>startSocketServer\<close>\<close>

text \<open>
  The calls \<open>closeServer\<close> makes on its collaborators, in the order it makes them:
  \<open>onConnection$.complete()\<close>, \<open>ws.close()\<close> on a client socket, \<open>wss.close(cb)\<close>.
\<close>

datatype server_call = SubjectComplete | ClientClose nat | ServerClose

text \<open>
  The state \<open>startSocketServer\<close> closes over: the variable \<open>closed\<close>, the set
  \<open>wss.clients\<close> of client sockets, and the calls made so far. The server keeps
  \<open>wss.clients\<close> only when it tracks its clients: with the server option
  \<open>clientTracking: false\<close> the property is \<open>undefined\<close>, here \<open>None\<close>.
\<close>

record socket_server =
  closed :: bool
  clients :: "nat list option"
  calls :: "server_call list"

text \<open>
  \<open>startSocketServer\<close>, by the option \<open>clientTracking\<close> of the server options it
  passes to \<open>new WebSocketServer\<close> (\<open>None\<close> when the option is not given; the default
  is to track).
\<close>

definition startSocketServer :: "bool option \<Rightarrow> socket_server" where
  "startSocketServer tracking =
     \<lparr> closed = False,
       clients = (if tracking = Some False then None else Some []),
       calls = [] \<rparr>"

text \<open>
  The TypeError of \<open>for (const ws of wss.clients)\<close> on an \<open>undefined\<close>
  \<open>wss.clients\<close>, as a value, by its message.
\<close>

definition not_iterable :: jsval where
  "not_iterable = JStr ''TypeError: wss.clients is not iterable''"

text \<open>
  \<open>closeServer\<close>. The argument \<open>err\<close> is what \<open>wss.close\<close> hands to its callback:
  \<open>None\<close> for a falsy \<open>err\<close> (the promise resolves), \<open>Some e\<close> for an error (it rejects).
  The loop over \<open>wss.clients\<close> runs in the promise's executor, after \<open>closed\<close> is set
  and the subject is completed: when it throws, the promise rejects with what it threw
  and \<open>wss.close\<close> is not reached.
\<close>

definition closeServer ::
  "jsval option \<Rightarrow> 'a socket_server_scheme \<Rightarrow> unit promise \<times> 'a socket_server_scheme" where
  "closeServer err s =
     (if closed s then (PROMISE_RESOLVE_VOID, s)
      else
        (case clients s of
           None \<Rightarrow>
             (Rejects not_iterable,
              s\<lparr> closed := True, calls := calls s @ [SubjectComplete] \<rparr>)
         | Some sockets \<Rightarrow>
             (case err of None \<Rightarrow> Resolves () | Some e \<Rightarrow> Rejects e,
              s\<lparr> closed := True,
                 calls := calls s @ [SubjectComplete] @ map ClientClose sockets
                            @ [ServerClose] \<rparr>)))"

text \<open>
  The callbacks in \<open>database.onDestroy\<close>. \<open>startWebsocketServer\<close> pushes
  \<open>() => serverState.close()\<close>; the others are whatever the database already held.
\<close>

datatype destroy_hook = CloseServerState | OtherHook nat

text \<open>Running one callback of \<open>database.onDestroy\<close> against the server state.\<close>

fun run_destroy_hook ::
  "jsval option \<Rightarrow> destroy_hook \<Rightarrow> 'a socket_server_scheme \<Rightarrow> 'a socket_server_scheme" where
  "run_destroy_hook err CloseServerState s = snd (closeServer err s)"
| "run_destroy_hook err (OtherHook n) s = s"


section \<open>The websocket server: \<open>startWebsocketServer\<close>\<close>

text \<open>A thrown value: \<open>new Error(message)\<close>, or the reason of a rejected promise.\<close>

datatype error = Error string | Thrown jsval

text \<open>
  A collection of the database, by the two properties the server reads. The type
  \<open>'c\<close> is the type of conflict handlers.
\<close>

record 'c collection =
  storageInstance :: nat
  conflictHandler :: 'c

text \<open>
  The database, by the properties the server reads. \<open>collections db name\<close> is what
  \<open>database.collections[name]\<close> gives, \<open>None\<close> where it is falsy. The object is
  taken by its own properties, which are collections: the names every object inherits
  from \<open>Object.prototype\<close> (\<open>constructor\<close>, \<open>toString\<close>) are outside the model.
\<close>

record 'c database =
  collections :: "string \<rightharpoonup> 'c collection"
  token :: string
  onDestroy :: "destroy_hook list"

text \<open>
  Modelled from the spec: \<open>rxStorageInstanceToReplicationHandler\<close> (replication-protocol,
  outside the repository excerpt) builds the Master Handler of spec section 6 from a storage instance, the
  injected Conflict Handler and the database token. The handler object is represented by
  the three values it is built from.
\<close>

record 'c replication_handler =
  rh_storageInstance :: nat
  rh_conflictHandler :: 'c
  rh_databaseInstanceToken :: string

definition rxStorageInstanceToReplicationHandler ::
  "nat \<Rightarrow> 'c \<Rightarrow> string \<Rightarrow> 'c replication_handler" where
  "rxStorageInstanceToReplicationHandler instance handler databaseInstanceToken =
     \<lparr> rh_storageInstance = instance,
       rh_conflictHandler = handler,
       rh_databaseInstanceToken = databaseInstanceToken \<rparr>"

text \<open>
  Modelled from the spec: \<open>getFromMapOrCreate\<close> (plugins/utils, outside the excerpt), by
  its name and its use: the value the map holds for the key, and otherwise the value
  the creator returns, stored under the key before it is returned. The creator runs on
  a state \<open>'s\<close> (here the store of allocated objects).
\<close>

definition getFromMapOrCreate ::
  "('k \<rightharpoonup> 'v) \<Rightarrow> 'k \<Rightarrow> ('s \<Rightarrow> 'v \<times> 's) \<Rightarrow> 's \<Rightarrow> 'v \<times> ('k \<rightharpoonup> 'v) \<times> 's" where
  "getFromMapOrCreate m k creator st =
     (case m k of
        Some v \<Rightarrow> (v, m, st)
      | None \<Rightarrow> (case creator st of (v, st') \<Rightarrow> (v, m(k \<mapsto> v), st')))"

text \<open>The two message types of websocket-types.ts.\<close>

record message =
  msg_id :: string
  msg_collection :: string
  msg_method :: string
  msg_params :: "jsval list"

record response =
  resp_id :: string
  resp_collection :: string
  resp_result :: jsval

text \<open>
  An rxjs subscription to \<open>handler.masterChangeStream$\<close>, with what its callback
  closes over (\<open>ws\<close> and \<open>message.collection\<close>) and whether \<open>unsubscribe()\<close> was called.
\<close>

record subscription =
  sub_handler :: nat
  sub_ws :: nat
  sub_collection :: string
  sub_closed :: bool

text \<open>
  The state of one \<open>startWebsocketServer\<close>: the socket server's, and
  \<^item> \<open>replicationHandlerByCollection\<close>, the \<open>Map\<close> from collection name to handler
    object (an object is its reference, the position in \<open>handlerObjects\<close>);
  \<^item> \<open>handlerObjects\<close>, the handler objects allocated so far, in allocation order, each
    with the collection name its creator ran for;
  \<^item> \<open>subscriptions\<close>, the subscriptions made so far (a subscription is its position);
  \<^item> \<open>onCloseHandlers\<close>, for each connection (socket) its array of close callbacks, each
    \<open>() => changeStreamSub.unsubscribe()\<close> given by the subscription it closes;
  \<^item> \<open>sent\<close>, the \<open>ws.send\<close> calls so far: the socket and the response object that
    was serialised.
\<close>

record 'c websocket_server = socket_server +
  replicationHandlerByCollection :: "string \<rightharpoonup> nat"
  handlerObjects :: "(string \<times> 'c replication_handler) list"
  subscriptions :: "subscription list"
  onCloseHandlers :: "nat \<Rightarrow> nat list"
  sent :: "(nat \<times> response) list"

text \<open>
  \<open>WebsocketServerOptions\<close>: the database, the optional access rule, and of the
  server options the one the server's own code depends on, \<open>clientTracking\<close>.
\<close>

record 'c websocket_server_options =
  database :: "'c database"
  collectionRules :: "(jsval \<Rightarrow> string \<Rightarrow> bool promise) option"
  clientTracking :: "bool option"

text \<open>
  \<open>startWebsocketServer\<close>, up to the subscription to \<open>onConnection$\<close>: the fresh
  server state, and the options with the close callback pushed to \<open>database.onDestroy\<close>.
\<close>

definition startWebsocketServer ::
  "'c websocket_server_options \<Rightarrow> 'c websocket_server \<times> 'c websocket_server_options" where
  "startWebsocketServer options =
     (socket_server.extend (startSocketServer (clientTracking options))
        (websocket_server.fields Map.empty [] [] (\<lambda>ws. []) []),
      options\<lparr> database := (database options)
        \<lparr> onDestroy := onDestroy (database options) @ [CloseServerState] \<rparr> \<rparr>)"

definition getReplicationHandler ::
  "'c database \<Rightarrow> string \<Rightarrow> 'c websocket_server \<Rightarrow> (error + nat) \<times> 'c websocket_server" where
  "getReplicationHandler db collectionName s =
     (case collections db collectionName of
        None \<Rightarrow> (Inl (Error (''collection '' @ collectionName @ '' does not exist'')), s)
      | Some collection \<Rightarrow>
          (case getFromMapOrCreate (replicationHandlerByCollection s) collectionName
                  (\<lambda>objs. (length objs,
                     objs @ [(collectionName,
                       rxStorageInstanceToReplicationHandler
                         (storageInstance collection) (conflictHandler collection) (token db))]))
                  (handlerObjects s) of
             (handler, m, objs) \<Rightarrow>
               (Inr handler, s\<lparr> replicationHandlerByCollection := m, handlerObjects := objs \<rparr>)))"

text \<open>
  \<open>handler[message.method]\<close>: a function, with the way its call settles on given
  parameters, or anything else. The handler's properties are built by
  \<open>rxStorageInstanceToReplicationHandler\<close>, so the lookup is a parameter
  \<open>lookup\<close> of the message handler: handler reference and property name to property.
\<close>

datatype property = Function "jsval list \<Rightarrow> jsval promise" | NotFunction

text \<open>
  The message handler after the access check (websocket-server.ts, lines 102 to 127),
  run to its end on the parsed message.
\<close>

definition dispatchMessage ::
  "'c database \<Rightarrow> (nat \<Rightarrow> string \<Rightarrow> property) \<Rightarrow> nat \<Rightarrow> message \<Rightarrow> 'c websocket_server
     \<Rightarrow> (error + unit) \<times> 'c websocket_server" where
  "dispatchMessage db lookup ws message s =
     (case getReplicationHandler db (msg_collection message) s of
        (Inl e, s') \<Rightarrow> (Inl e, s')
      | (Inr handler, s') \<Rightarrow>
          (case lookup handler (msg_method message) of
             NotFunction \<Rightarrow>
               (Inr (),
                s'\<lparr> subscriptions := subscriptions s' @
                       [\<lparr> sub_handler = handler, sub_ws = ws,
                          sub_collection = msg_collection message, sub_closed = False \<rparr>],
                    onCloseHandlers := (onCloseHandlers s')
                       (ws := onCloseHandlers s' ws @ [length (subscriptions s')]) \<rparr>)
           | Function method \<Rightarrow>
               (case method (msg_params message) of
                  Rejects e \<Rightarrow> (Inl (Thrown e), s')
                | Resolves result \<Rightarrow>
                    (Inr (),
                     s'\<lparr> sent := sent s' @
                        [(ws, \<lparr> resp_id = msg_id message,
                                 resp_collection = msg_collection message,
                                 resp_result = result \<rparr>)] \<rparr>))))"

text \<open>
  The TypeScript message handler (websocket-server.ts, line 96): the access check
  \<open>options.collectionRules && !(await options.collectionRules(req, message.collection))\<close>
  returns early; a rejected rule promise rejects the handler.
\<close>

definition onMessage ::
  "'c websocket_server_options \<Rightarrow> (nat \<Rightarrow> string \<Rightarrow> property) \<Rightarrow> nat \<Rightarrow> jsval \<Rightarrow> message
     \<Rightarrow> 'c websocket_server \<Rightarrow> (error + unit) \<times> 'c websocket_server" where
  "onMessage options lookup ws req message s =
     (case collectionRules options of
        None \<Rightarrow> dispatchMessage (database options) lookup ws message s
      | Some rules \<Rightarrow>
          (case rules req (msg_collection message) of
             Rejects e \<Rightarrow> (Inl (Thrown e), s)
           | Resolves allowed \<Rightarrow>
               if \<not> allowed then (Inr (), s)
               else dispatchMessage (database options) lookup ws message s))"

text \<open>
  The compiled message handler (both builds of websocket-server.js): the access check is
  \<open>options.collectionRules && !options.collectionRules(req, message.collection)\<close>, with
  no \<open>await\<close>. The call returns a promise, an object, and \<open>!\<close> of an object is
  \<open>false\<close> however the promise settles.
\<close>

definition promise_truthy :: "'a promise \<Rightarrow> bool" where
  "promise_truthy p = True"

definition onMessage_compiled ::
  "'c websocket_server_options \<Rightarrow> (nat \<Rightarrow> string \<Rightarrow> property) \<Rightarrow> nat \<Rightarrow> jsval \<Rightarrow> message
     \<Rightarrow> 'c websocket_server \<Rightarrow> (error + unit) \<times> 'c websocket_server" where
  "onMessage_compiled options lookup ws req message s =
     (case collectionRules options of
        None \<Rightarrow> dispatchMessage (database options) lookup ws message s
      | Some rules \<Rightarrow>
          if \<not> promise_truthy (rules req (msg_collection message)) then (Inr (), s)
          else dispatchMessage (database options) lookup ws message s)"

text \<open>
  \<open>handler.masterChangeStream$\<close> of the handler object \<open>handler\<close> emits \<open>ev\<close>: every
  subscription to it that is not unsubscribed runs its callback, which sends the stream
  response on its socket.
\<close>

definition masterChangeStream_next :: "nat \<Rightarrow> jsval \<Rightarrow> 'c websocket_server \<Rightarrow> 'c websocket_server" where
  "masterChangeStream_next handler ev s =
     s\<lparr> sent := sent s @
          map (\<lambda>sub. (sub_ws sub,
                 \<lparr> resp_id = ''stream'', resp_collection = sub_collection sub, resp_result = ev \<rparr>))
            (filter (\<lambda>sub. sub_handler sub = handler \<and> \<not> sub_closed sub) (subscriptions s)) \<rparr>"

text \<open>\<open>changeStreamSub.unsubscribe()\<close> for the subscription at position \<open>i\<close>.\<close>

definition unsubscribe :: "nat \<Rightarrow> 'c websocket_server \<Rightarrow> 'c websocket_server" where
  "unsubscribe i s =
     (if i < length (subscriptions s)
      then s\<lparr> subscriptions := (subscriptions s)[i := (subscriptions s ! i)\<lparr> sub_closed := True \<rparr>] \<rparr>
      else s)"

text \<open>\<open>ws.onclose\<close>: \<open>onCloseHandlers.map(fn => fn())\<close>, in the array's order.\<close>

definition ws_onclose :: "nat \<Rightarrow> 'c websocket_server \<Rightarrow> 'c websocket_server" where
  "ws_onclose ws s = foldl (\<lambda>st i. unsubscribe i st) s (onCloseHandlers s ws)"


text \<open>
  What reaches the server after \<open>startWebsocketServer\<close> has returned: a message on a
  connection (with the options object and the handlers' properties as they are when it
  arrives), an event of a handler's change stream, the close of a socket. Each connection
  has a socket of its own.
\<close>

datatype 'c server_event =
    ClientMessage "'c websocket_server_options" "nat \<Rightarrow> string \<Rightarrow> property" nat jsval message
  | ChangeEvent nat jsval
  | SocketClosed nat

fun server_step :: "'c server_event \<Rightarrow> 'c websocket_server \<Rightarrow> 'c websocket_server" where
  "server_step (ClientMessage options lookup ws req message) s =
     snd (onMessage options lookup ws req message s)"
| "server_step (ChangeEvent handler ev) s = masterChangeStream_next handler ev s"
| "server_step (SocketClosed ws) s = ws_onclose ws s"

definition server_run :: "'c server_event list \<Rightarrow> 'c websocket_server \<Rightarrow> 'c websocket_server" where
  "server_run evs s = foldl (\<lambda>st ev. server_step ev st) s evs"


section \<open>Invariants of the websocket server\<close>

text \<open>
  The invariant of the handler map: every entry points at an allocated handler object
  made for its key, and every allocated handler object is the entry of its name.
\<close>

definition handlers_wf :: "'c websocket_server \<Rightarrow> bool" where
  "handlers_wf s \<longleftrightarrow>
     (\<forall>n r. replicationHandlerByCollection s n = Some r \<longrightarrow>
        r < length (handlerObjects s) \<and> fst (handlerObjects s ! r) = n)
   \<and> (\<forall>i < length (handlerObjects s).
        replicationHandlerByCollection s (fst (handlerObjects s ! i)) = Some i)"

text \<open>
  The invariant of the close callbacks: a callback in a connection's array closes a
  subscription made on that connection's socket.
\<close>

definition subs_wf :: "'c websocket_server \<Rightarrow> bool" where
  "subs_wf s \<longleftrightarrow>
     (\<forall>ws. \<forall>i \<in> set (onCloseHandlers s ws).
        i < length (subscriptions s) \<and> sub_ws (subscriptions s ! i) = ws)"

text \<open>The subscription at position n is the open subscription of socket ws to handler h.\<close>

definition streaming :: "nat \<Rightarrow> nat \<Rightarrow> nat \<Rightarrow> string \<Rightarrow> 'c websocket_server \<Rightarrow> bool" where
  "streaming n h ws coll s \<longleftrightarrow>
     n < length (subscriptions s)
   \<and> subscriptions s ! n =
       \<lparr> sub_handler = h, sub_ws = ws, sub_collection = coll, sub_closed = False \<rparr>
   \<and> n \<in> set (onCloseHandlers s ws)"

section \<open>The conflict handler\<close>

text \<open>
  Modelled from the spec: the Conflict Handler of spec section 6 (its type is outside
  the excerpt): \<open>resolve(masterState, forkState, assumedMasterState)\<close> gives \<open>Equal\<close>,
  \<open>Resolved(document)\<close> or \<open>Unresolvable\<close>, and \<open>assumedMasterState\<close> may be null.
  The handler is a JavaScript function: it can read and write state that is not among its
  arguments (a clock, a counter, a cache), here the state \<open>'w\<close>, which it returns updated.
\<close>

datatype 'd conflict_outcome = Equal | Resolved 'd | Unresolvable

type_synonym ('d, 'w) conflict_handler =
  "'d \<Rightarrow> 'd \<Rightarrow> 'd option \<Rightarrow> 'w \<Rightarrow> 'd conflict_outcome \<times> 'w"

text \<open>
  Deterministic: the outcome depends on the three inputs only, whatever the state the
  handler is called in.
\<close>

definition deterministic :: "('d, 'w) conflict_handler \<Rightarrow> bool" where
  "deterministic handler \<longleftrightarrow>
     (\<forall>masterState forkState assumedMasterState w w'.
        fst (handler masterState forkState assumedMasterState w)
          = fst (handler masterState forkState assumedMasterState w'))"

text \<open>The conflict handler injected into the handler object with reference \<open>h\<close>.\<close>

definition injected_conflictHandler :: "'c websocket_server \<Rightarrow> nat \<Rightarrow> 'c" where
  "injected_conflictHandler s h = rh_conflictHandler (snd (handlerObjects s ! h))"

section \<open>Documents and the comparison operators\<close>

text \<open>
  Modelled from the spec: \<open>getProperty\<close> (plugins/utils, outside the excerpt) reads the value
  at a property path of an object, \<open>undefined\<close> where the object has none. A document
  is given by the values at its property paths.
\<close>

type_synonym document = "string \<rightharpoonup> jsval"

definition getProperty :: "document \<Rightarrow> string \<Rightarrow> jsval" where
  "getProperty doc path = (case doc path of None \<Rightarrow> JUndefined | Some v \<Rightarrow> v)"

text \<open>
  \<open>a === b\<close>. On the values of the model (no \<open>NaN\<close>, objects by reference) strict
  equality is equality.
\<close>

definition js_strict_eq :: "jsval \<Rightarrow> jsval \<Rightarrow> bool" where
  "js_strict_eq a b \<longleftrightarrow> a = b"

text \<open>
  \<open>a > b\<close>, the relational comparison of ECMAScript: both operands are made primitive
  (a plain object becomes the string \<open>[object Object]\<close>); two strings compare by code
  units; otherwise both are converted to numbers, and the comparison is false when either
  is \<open>NaN\<close> (\<open>None\<close> below). A string converts to a number when it is empty (zero) or
  a decimal integer literal with an optional sign; every other string is taken to
  \<open>NaN\<close>, so white space, fractions, exponents, hexadecimal literals and \<open>Infinity\<close>
  are outside the model.
\<close>

definition is_digit :: "char \<Rightarrow> bool" where
  "is_digit c \<longleftrightarrow> c \<in> set ''0123456789''"

fun digits_value :: "string \<Rightarrow> int \<Rightarrow> int" where
  "digits_value [] acc = acc"
| "digits_value (c # cs) acc = digits_value cs (10 * acc + (int (of_char c) - 48))"

definition string_to_number :: "string \<Rightarrow> int option" where
  "string_to_number s =
     (case s of
        [] \<Rightarrow> Some 0
      | c # cs \<Rightarrow>
          if (c = CHR ''-'' \<or> c = CHR ''+'') \<and> cs \<noteq> [] \<and> list_all is_digit cs
          then Some ((if c = CHR ''-'' then - 1 else 1) * digits_value cs 0)
          else if list_all is_digit s then Some (digits_value s 0)
          else None)"

fun to_primitive :: "jsval \<Rightarrow> jsval" where
  "to_primitive (JObject r) = JStr ''[object Object]''"
| "to_primitive v = v"

fun to_number :: "jsval \<Rightarrow> int option" where
  "to_number JUndefined = None"
| "to_number JNull = Some 0"
| "to_number (JBool b) = Some (if b then 1 else 0)"
| "to_number (JNum n) = Some n"
| "to_number (JStr s) = string_to_number s"
| "to_number (JObject r) = None"

definition js_gt :: "jsval \<Rightarrow> jsval \<Rightarrow> bool" where
  "js_gt a b =
     (case (to_primitive a, to_primitive b) of
        (JStr x, JStr y) \<Rightarrow> y < x
      | (pa, pb) \<Rightarrow>
          (case (to_number pa, to_number pb) of
             (Some x, Some y) \<Rightarrow> y < x
           | _ \<Rightarrow> False))"

section \<open>The LokiJS sort comparator: \<open>getLokiSortComparator\<close>\<close>

datatype MangoQuerySortDirection = Asc | Desc

text \<open>
  A sort part is an object with one key, the field name, whose value is the direction:
  the pair of \<open>Object.keys(sortPart)[0]\<close> and \<open>Object.values(sortPart)[0]\<close>.
\<close>

type_synonym MangoQuerySortPart = "string \<times> MangoQuerySortDirection"

text \<open>The errors of the storage code: \<open>newRxError(code, ...)\<close> and \<open>new Error(message)\<close>.\<close>

datatype rx_error = RxError string | JsError string | ThrownValue jsval

text \<open>
  \<open>sortOptions.find(sortPart => ...)\<close> with its effect on the variable
  \<open>compareResult\<close>: the callback returns false on a field where the two values are
  strictly equal, and otherwise sets \<open>compareResult\<close> and returns true, which ends the
  search. The result is the value of \<open>compareResult\<close> after the search.
\<close>

fun sortOptions_find ::
  "MangoQuerySortPart list \<Rightarrow> document \<Rightarrow> document \<Rightarrow> int \<Rightarrow> int" where
  "sortOptions_find [] a b compareResult = compareResult"
| "sortOptions_find (sortPart # rest) a b compareResult =
     (let fieldName = fst sortPart;
          direction = snd sortPart;
          directionMultiplier = (if direction = Asc then 1 else - 1);
          valueA = getProperty a fieldName;
          valueB = getProperty b fieldName
      in if js_strict_eq valueA valueB then sortOptions_find rest a b compareResult
         else if js_gt valueA valueB then 1 * directionMultiplier
         else - 1 * directionMultiplier)"

text \<open>
  \<open>getLokiSortComparator\<close>, with \<open>query.sort\<close> as its argument (\<open>None\<close> when the
  query has none): it throws \<open>SNH\<close>, or returns the comparator, which throws \<open>SNH\<close>
  when \<open>compareResult\<close> is still zero after the search.
\<close>

definition getLokiSortComparator ::
  "MangoQuerySortPart list option \<Rightarrow> rx_error + (document \<Rightarrow> document \<Rightarrow> rx_error + int)" where
  "getLokiSortComparator sort_opt =
     (case sort_opt of
        None \<Rightarrow> Inl (RxError ''SNH'')
      | Some sortOptions \<Rightarrow>
          Inr (\<lambda>a b.
            let compareResult = sortOptions_find sortOptions a b 0
            in if compareResult = 0 then Inl (RxError ''SNH'') else Inr compareResult))"

text \<open>
  The order the claim describes: the first sort part on whose field the two documents
  differ decides, by \<open>>\<close> on the two values, reversed when the part is descending.
\<close>

definition first_difference ::
  "MangoQuerySortPart list \<Rightarrow> document \<Rightarrow> document \<Rightarrow> MangoQuerySortPart option" where
  "first_difference sortOptions a b =
     List.find (\<lambda>part. getProperty a (fst part) \<noteq> getProperty b (fst part)) sortOptions"

definition order_by_first_difference ::
  "MangoQuerySortPart list \<Rightarrow> document \<Rightarrow> document \<Rightarrow> int option" where
  "order_by_first_difference sortOptions a b =
     (case first_difference sortOptions a b of
        None \<Rightarrow> None
      | Some (fieldName, direction) \<Rightarrow>
          Some (let ascending =
                  (if js_gt (getProperty a fieldName) (getProperty b fieldName) then 1 else - 1)
                in if direction = Asc then ascending else - ascending))"

section \<open>The Dexie query: \<open>dexieQuery\<close>\<close>
















text \<open>
  \<open>rows.sort(sortComparator)\<close>: the stable sort of ECMAScript, as an insertion sort. An
  element is placed before the first element it does not come after.
\<close>

fun insert_sorted :: "('a \<Rightarrow> 'a \<Rightarrow> int) \<Rightarrow> 'a \<Rightarrow> 'a list \<Rightarrow> 'a list" where
  "insert_sorted comparator x [] = [x]"
| "insert_sorted comparator x (y # ys) =
     (if comparator x y \<le> 0 then x # y # ys else y # insert_sorted comparator x ys)"

definition js_sort :: "('a \<Rightarrow> 'a \<Rightarrow> int) \<Rightarrow> 'a list \<Rightarrow> 'a list" where
  "js_sort comparator xs = foldr (insert_sorted comparator) xs []"






text \<open>
  What the claim describes, for the documents \<open>docs\<close> of the plan's key range: those
  that are not deleted and match the query, in the order of the sort comparator, without
  the first \<open>skip\<close> and cut to \<open>limit\<close>.
\<close>

definition expected_documents ::
  "(document \<Rightarrow> bool) \<Rightarrow> (document \<Rightarrow> document \<Rightarrow> int) \<Rightarrow> nat \<Rightarrow> enat \<Rightarrow> document list
     \<Rightarrow> document list" where
  "expected_documents matches comparator skip_n limit_n docs =
     (let wanted = js_sort comparator
            (filter (\<lambda>d. \<not> js_truthy (getProperty d ''_deleted'') \<and> matches d) docs);
          after_skip = drop skip_n wanted
      in case limit_n of enat l \<Rightarrow> take l after_skip | \<infinity> \<Rightarrow> after_skip)"







section \<open>Leader election of the LokiJS storage: \<open>waitUntilHasLeader\<close>\<close>

text \<open>
  What one iteration of the loop in \<open>waitUntilHasLeader\<close> sees of the leader elector
  (the elector is the broadcast-channel library's): the answer of \<open>hasLeader()\<close>,
  \<open>broadcastChannel.isClosed\<close>, \<open>isDead\<close>, and \<open>isLeader\<close>, which the callers read
  when the loop has returned.
\<close>

record elector_view =
  hasLeader :: bool
  isClosed :: bool
  isDead :: bool
  isLeader :: bool

definition has_leader_or_gone :: "elector_view \<Rightarrow> bool" where
  "has_leader_or_gone v \<longleftrightarrow> hasLeader v \<or> isClosed v \<or> isDead v"

text \<open>
  The loop \<open>while (true)\<close> of \<open>waitUntilHasLeader\<close>, from its iteration \<open>i\<close> on, over
  the views \<open>polls i\<close> the iterations get; the calls that make the elector apply for
  leadership show only in what later iterations see. The result is the iteration at which
  the loop returns; the loop need not return, and then the result is \<open>None\<close>.
\<close>

partial_function (option) waitUntilHasLeader :: "(nat \<Rightarrow> elector_view) \<Rightarrow> nat \<Rightarrow> nat option" where
  "waitUntilHasLeader polls i =
     (if has_leader_or_gone (polls i) then Some i
      else waitUntilHasLeader polls (Suc i))"

section \<open>The LokiJS storage instance: \<open>mustUseLocalState\<close>\<close>








section \<open>Requests to the leading instance: \<open>requestRemoteInstance\<close>\<close>

definition LOKI_BROADCAST_CHANNEL_MESSAGE_TYPE :: string where
  "LOKI_BROADCAST_CHANNEL_MESSAGE_TYPE = ''rxdb-lokijs-remote-request''"

definition LOKI_KEY_OBJECT_BROADCAST_CHANNEL_MESSAGE_TYPE :: string where
  "LOKI_KEY_OBJECT_BROADCAST_CHANNEL_MESSAGE_TYPE = ''rxdb-lokijs-remote-request-key-object''"

text \<open>
  A message that arrives on the broadcast channel: on \<open>internal\<close>, with the properties
  \<open>context\<close> and \<open>action\<close>, or on \<open>message\<close>, with \<open>type\<close>, \<open>response\<close>,
  \<open>requestId\<close>, \<open>isError\<close> and \<open>result\<close>.
\<close>

datatype channel_event =
    OnInternal jsval jsval
  | OnMessage jsval jsval jsval jsval jsval

text \<open>The request \<open>requestRemoteInstance\<close> posts.\<close>

record remote_request =
  rr_type :: string
  rr_operation :: string
  rr_params :: "jsval list"
  rr_requestId :: string
  rr_databaseName :: string
  rr_collectionName :: string

text \<open>The two listeners a call adds, each closing over the call's request id.\<close>

datatype channel_listener = WhenDeathListener string | ResponseListener string

record broadcast_channel =
  internalListeners :: "channel_listener list"
  messageListeners :: "channel_listener list"
  posted :: "remote_request list"

text \<open>
  \<open>WinningPromise\<close>, with its properties \<open>retry\<close>, \<open>result\<close> and \<open>error\<close>; a
  property that is not set reads \<open>undefined\<close>.
\<close>

record WinningPromise =
  wp_retry :: bool
  wp_result :: jsval
  wp_error :: jsval

text \<open>The two listeners: the value they resolve their promise with, if they do.\<close>

fun whenDeathListener :: "channel_event \<Rightarrow> WinningPromise option" where
  "whenDeathListener (OnInternal context action) =
     (if js_strict_eq context (JStr ''leader'') \<and> js_strict_eq action (JStr ''death'')
      then Some \<lparr> wp_retry = True, wp_result = JUndefined, wp_error = JUndefined \<rparr>
      else None)"
| "whenDeathListener (OnMessage t response rid isError res) = None"

fun responseListener :: "string \<Rightarrow> string \<Rightarrow> channel_event \<Rightarrow> WinningPromise option" where
  "responseListener messageType requestId (OnMessage t response rid isError res) =
     (if js_strict_eq t (JStr messageType) \<and> js_strict_eq response (JBool True)
         \<and> js_strict_eq rid (JStr requestId)
      then (if js_truthy isError
            then Some \<lparr> wp_retry = False, wp_result = JUndefined, wp_error = res \<rparr>
            else Some \<lparr> wp_retry = False, wp_result = res, wp_error = JUndefined \<rparr>)
      else None)"
| "responseListener messageType requestId (OnInternal context action) = None"

text \<open>
  \<open>Promise.race\<close> of the two promises over the events that arrive after the request, in
  their order: the first event that resolves one of them decides. \<open>None\<close>: no event
  does, and the race stays pending.
\<close>

fun race :: "string \<Rightarrow> string \<Rightarrow> channel_event list \<Rightarrow> WinningPromise option" where
  "race messageType requestId [] = None"
| "race messageType requestId (ev # evs) =
     (case whenDeathListener ev of
        Some w \<Rightarrow> Some w
      | None \<Rightarrow>
          (case responseListener messageType requestId ev of
             Some w \<Rightarrow> Some w
           | None \<Rightarrow> race messageType requestId evs))"

text \<open>
  What a call of \<open>requestRemoteInstance\<close> meets: the views of its wait for a leader, the
  request id \<open>randomCouchString(12)\<close> gives, the events that arrive after the request, and
  the way \<open>instance[operation](...params)\<close> settles when it is run on this instance.
\<close>

record remote_env =
  re_polls :: "nat \<Rightarrow> elector_view"
  re_requestId :: string
  re_events :: "channel_event list"
  re_runOperation :: "string \<Rightarrow> jsval list \<Rightarrow> rx_error + jsval"

record remote_instance =
  isRxStorageInstanceLoki :: bool
  ri_leaderElector :: bool
  databaseName :: string
  collectionName :: string

text \<open>
  The callback of \<open>then\<close>, after the listeners are removed: re-run the operation, throw
  the error, or return the result.
\<close>

definition firstResolved_outcome ::
  "remote_env \<Rightarrow> string \<Rightarrow> jsval list \<Rightarrow> WinningPromise \<Rightarrow> rx_error + jsval" where
  "firstResolved_outcome env operation params firstResolved =
     (if wp_retry firstResolved then re_runOperation env operation params
      else if js_truthy (wp_error firstResolved) then Inl (ThrownValue (wp_error firstResolved))
      else Inr (wp_result firstResolved))"

text \<open>
  \<open>requestRemoteInstance\<close>: the way the returned promise settles and the channel then.
  \<open>None\<close>: the promise stays pending (the wait for a leader does not return, or no
  event settles the race).
\<close>

definition requestRemoteInstance ::
  "remote_env \<Rightarrow> remote_instance \<Rightarrow> string \<Rightarrow> jsval list \<Rightarrow> broadcast_channel
     \<Rightarrow> ((rx_error + jsval) \<times> broadcast_channel) option" where
  "requestRemoteInstance env inst operation params channel =
     (let messageType =
            (if isRxStorageInstanceLoki inst then LOKI_BROADCAST_CHANNEL_MESSAGE_TYPE
             else LOKI_KEY_OBJECT_BROADCAST_CHANNEL_MESSAGE_TYPE)
      in if \<not> ri_leaderElector inst then Some (Inl (JsError ''ensureNotFalsy''), channel)
         else case waitUntilHasLeader (re_polls env) 0 of
           None \<Rightarrow> None
         | Some i \<Rightarrow>
             let requestId = re_requestId env;
                 listening = channel
                   \<lparr> internalListeners := internalListeners channel @ [WhenDeathListener requestId],
                     messageListeners := messageListeners channel @ [ResponseListener requestId],
                     posted := posted channel @
                       [\<lparr> rr_type = messageType, rr_operation = operation, rr_params = params,
                          rr_requestId = requestId, rr_databaseName = databaseName inst,
                          rr_collectionName = collectionName inst \<rparr>] \<rparr>
             in case race messageType requestId (re_events env) of
                  None \<Rightarrow> None
                | Some firstResolved \<Rightarrow>
                    Some (firstResolved_outcome env operation params firstResolved,
                          listening
                            \<lparr> messageListeners :=
                                remove1 (ResponseListener requestId) (messageListeners listening),
                              internalListeners :=
                                remove1 (WhenDeathListener requestId) (internalListeners listening) \<rparr>))"

section \<open>Concrete inputs\<close>

text \<open>
  A socket server with two connected clients, the sockets 4 and 7, and one started with
  \<open>clientTracking: false\<close>.
\<close>

definition two_clients :: "socket_server" where
  "two_clients = \<lparr> closed = False, clients = Some [4, 7], calls = [] \<rparr>"

definition untracked_server :: "socket_server" where
  "untracked_server = startSocketServer (Some False)"

text \<open>
  Two conflict handlers over documents that are numbers: one keeps the fork's document
  unless the two states are equal; one decides by a clock that it also advances.
\<close>

definition fork_wins :: "(int, nat) conflict_handler" where
  "fork_wins masterState forkState assumedMasterState now =
     (if masterState = forkState then Equal else Resolved forkState, now)"

definition by_clock :: "(int, nat) conflict_handler" where
  "by_clock masterState forkState assumedMasterState now =
     (if even now then Resolved forkState else Resolved masterState, Suc now)"

text \<open>A database with the one collection \<open>humans\<close>, and options over it.\<close>

definition humans_database :: "'c \<Rightarrow> 'c database" where
  "humans_database handler =
     \<lparr> collections = [''humans'' \<mapsto> \<lparr> storageInstance = 0, conflictHandler = handler \<rparr>],
       token = ''token'', onDestroy = [] \<rparr>"

definition open_options :: "'c \<Rightarrow> 'c websocket_server_options" where
  "open_options handler =
     \<lparr> database = humans_database handler, collectionRules = None, clientTracking = None \<rparr>"

definition allowing_options :: "'c \<Rightarrow> 'c websocket_server_options" where
  "allowing_options handler =
     \<lparr> database = humans_database handler,
       collectionRules = Some (\<lambda>req collectionName. Resolves True),
       clientTracking = None \<rparr>"

text \<open>\<open>collectionRules: async () => false\<close>.\<close>

definition denying_options :: "'c \<Rightarrow> 'c websocket_server_options" where
  "denying_options handler =
     \<lparr> database = humans_database handler,
       collectionRules = Some (\<lambda>req collectionName. Resolves False),
       clientTracking = None \<rparr>"

text \<open>
  Handler properties: \<open>masterChangesSince\<close> and \<open>masterWrite\<close> are functions (here
  resolving to the object 5), every other name is not a function.
\<close>

definition handler_properties :: "nat \<Rightarrow> string \<Rightarrow> property" where
  "handler_properties handler name =
     (if name = ''masterChangesSince'' \<or> name = ''masterWrite''
      then Function (\<lambda>params. Resolves (JObject 5)) else NotFunction)"

definition pull_message :: message where
  "pull_message =
     \<lparr> msg_id = ''42'', msg_collection = ''humans'', msg_method = ''masterChangesSince'',
       msg_params = [JNull, JNum 10] \<rparr>"

definition stream_message :: message where
  "stream_message =
     \<lparr> msg_id = ''43'', msg_collection = ''humans'', msg_method = ''masterChangeStream$'',
       msg_params = [] \<rparr>"

definition pets_message :: message where
  "pets_message =
     \<lparr> msg_id = ''44'', msg_collection = ''pets'', msg_method = ''masterWrite'',
       msg_params = [] \<rparr>"

text \<open>Two documents of the same age with the primary keys \<open>alice\<close> and \<open>bob\<close>.\<close>

definition alice :: document where
  "alice = [''id'' \<mapsto> JStr ''alice'', ''age'' \<mapsto> JNum 30]"

definition bob :: document where
  "bob = [''id'' \<mapsto> JStr ''bob'', ''age'' \<mapsto> JNum 30]"

definition by_age_then_id :: "MangoQuerySortPart list" where
  "by_age_then_id = [(''age'', Desc), (''id'', Asc)]"














definition other_leads :: "nat \<Rightarrow> elector_view" where
  "other_leads i = \<lparr> hasLeader = True, isClosed = False, isDead = False, isLeader = False \<rparr>"





text \<open>
  A request to the leading instance that is answered by one message: a response to this
  request, marked as an error, whose \<open>result\<close> is \<open>null\<close>; and the same with the error
  object 3 as \<open>result\<close>. Run on this instance the operation would resolve to 1.
\<close>

definition error_response :: "jsval \<Rightarrow> channel_event" where
  "error_response res =
     OnMessage (JStr LOKI_BROADCAST_CHANNEL_MESSAGE_TYPE) (JBool True) (JStr ''k3x9w2p7q5zt'')
       (JBool True) res"

definition answered_by :: "channel_event list \<Rightarrow> remote_env" where
  "answered_by events =
     \<lparr> re_polls = other_leads, re_requestId = ''k3x9w2p7q5zt'', re_events = events,
       re_runOperation = (\<lambda>operation params. Inr (JNum 1)) \<rparr>"

definition follower :: remote_instance where
  "follower =
     \<lparr> isRxStorageInstanceLoki = True, ri_leaderElector = True,
       databaseName = ''db'', collectionName = ''humans'' \<rparr>"

definition quiet_channel :: broadcast_channel where
  "quiet_channel = \<lparr> internalListeners = [], messageListeners = [], posted = [] \<rparr>"

definition query_request :: remote_request where
  "query_request =
     \<lparr> rr_type = LOKI_BROADCAST_CHANNEL_MESSAGE_TYPE, rr_operation = ''query'',
       rr_params = [JObject 2], rr_requestId = ''k3x9w2p7q5zt'',
       rr_databaseName = ''db'', rr_collectionName = ''humans'' \<rparr>"

section \<open>Properties of the websocket server\<close>

subsection \<open>Closing the server\<close>

lemma closeServer_open:
  "\<not> closed s \<Longrightarrow> clients s = Some sockets \<Longrightarrow> closeServer err s =
     (case err of None \<Rightarrow> Resolves () | Some e \<Rightarrow> Rejects e,
      s\<lparr> closed := True,
         calls := calls s @ [SubjectComplete] @ map ClientClose sockets @ [ServerClose] \<rparr>)"
  by (simp add: closeServer_def)

lemma closeServer_untracked:
  "\<not> closed s \<Longrightarrow> clients s = None \<Longrightarrow> closeServer err s =
     (Rejects not_iterable, s\<lparr> closed := True, calls := calls s @ [SubjectComplete] \<rparr>)"
  by (simp add: closeServer_def)

lemma closeServer_closed:
  "closed s \<Longrightarrow> closeServer err s = (PROMISE_RESOLVE_VOID, s)"
  by (simp add: closeServer_def)

lemma closed_after_closeServer: "closed (snd (closeServer err s))"
  by (simp add: closeServer_def split: option.splits)

text \<open>
  What holds of closing on every server. On a server that is not closed and tracks its
  clients, \<open>closeServer\<close> completes the connection subject, closes every client of
  \<open>wss.clients\<close> and then the server, and returns a promise that settles as
  \<open>wss.close\<close> reports. On a closed server it returns \<open>PROMISE_RESOLVE_VOID\<close> and
  changes nothing; so does every call after a first one. A server starts open, and
  \<open>startWebsocketServer\<close> pushes to \<open>database.onDestroy\<close> a callback that runs this
  close.
\<close>

lemma closeServer_idempotent:
  "(\<not> closed s \<and> clients s = Some sockets \<longrightarrow>
      closeServer err s =
        (case err of None \<Rightarrow> Resolves () | Some e \<Rightarrow> Rejects e,
         s\<lparr> closed := True,
            calls := calls s @ [SubjectComplete] @ map ClientClose sockets @ [ServerClose] \<rparr>))
   \<and> (closed s \<longrightarrow> closeServer err s = (PROMISE_RESOLVE_VOID, s))
   \<and> closeServer err' (snd (closeServer err s)) = (PROMISE_RESOLVE_VOID, snd (closeServer err s))
   \<and> \<not> closed (fst (startWebsocketServer options))
   \<and> onDestroy (database (snd (startWebsocketServer options)))
        = onDestroy (database options) @ [CloseServerState]
   \<and> run_destroy_hook err CloseServerState s = snd (closeServer err s)"
  by (simp add: closeServer_open closeServer_closed closed_after_closeServer
      startWebsocketServer_def startSocketServer_def socket_server.extend_def)

lemma closeServer_two_clients:
  "closeServer None two_clients =
     (Resolves (), \<lparr> closed = True, clients = Some [4, 7],
        calls = [SubjectComplete, ClientClose 4, ClientClose 7, ServerClose] \<rparr>)
   \<and> closeServer None (snd (closeServer None two_clients))
       = (PROMISE_RESOLVE_VOID, snd (closeServer None two_clients))"
  by (simp add: two_clients_def closeServer_def PROMISE_RESOLVE_VOID_def)

text \<open>
  Claim C5. The first close does not always close the server. On a server started with
  \<open>clientTracking: false\<close>, \<open>wss.clients\<close> is \<open>undefined\<close>: the first call sets
  \<open>closed\<close>, completes the connection subject and returns a promise that rejects with
  the TypeError of the loop over the clients; \<open>wss.close\<close> is not called. Every later
  call finds \<open>closed\<close> set, returns \<open>PROMISE_RESOLVE_VOID\<close> and changes nothing, so the
  server is never closed.
\<close>

theorem closeServer_untracked_never_closes:
  "clients untracked_server = None
   \<and> closeServer None untracked_server =
       (Rejects not_iterable,
        \<lparr> closed = True, clients = None, calls = [SubjectComplete] \<rparr>)
   \<and> ServerClose \<notin> set (calls (snd (closeServer None untracked_server)))
   \<and> closeServer None (snd (closeServer None untracked_server))
       = (PROMISE_RESOLVE_VOID, snd (closeServer None untracked_server))
   \<and> ServerClose \<notin> set (calls (snd (closeServer None (snd (closeServer None untracked_server)))))"
  by (simp add: untracked_server_def startSocketServer_def closeServer_def)

subsection \<open>The replication handler of a collection\<close>

lemma getReplicationHandler_missing:
  "collections db n = None \<Longrightarrow>
   getReplicationHandler db n s = (Inl (Error (''collection '' @ n @ '' does not exist'')), s)"
  by (simp add: getReplicationHandler_def)

lemma getReplicationHandler_cached:
  "collections db n = Some c \<Longrightarrow> replicationHandlerByCollection s n = Some h \<Longrightarrow>
   getReplicationHandler db n s = (Inr h, s)"
  by (simp add: getReplicationHandler_def getFromMapOrCreate_def)

lemma getReplicationHandler_created:
  "collections db n = Some c \<Longrightarrow> replicationHandlerByCollection s n = None \<Longrightarrow>
   getReplicationHandler db n s =
     (Inr (length (handlerObjects s)),
      s\<lparr> replicationHandlerByCollection := (replicationHandlerByCollection s)(n \<mapsto> length (handlerObjects s)),
         handlerObjects := handlerObjects s @
           [(n, rxStorageInstanceToReplicationHandler (storageInstance c) (conflictHandler c) (token db))] \<rparr>)"
  by (simp add: getReplicationHandler_def getFromMapOrCreate_def)

lemma getReplicationHandler_cases:
  obtains (missing) "collections db n = None"
      "getReplicationHandler db n s = (Inl (Error (''collection '' @ n @ '' does not exist'')), s)"
  | (cached) c h where "collections db n = Some c" "replicationHandlerByCollection s n = Some h"
      "getReplicationHandler db n s = (Inr h, s)"
  | (created) c where "collections db n = Some c" "replicationHandlerByCollection s n = None"
      "getReplicationHandler db n s =
        (Inr (length (handlerObjects s)),
         s\<lparr> replicationHandlerByCollection := (replicationHandlerByCollection s)(n \<mapsto> length (handlerObjects s)),
            handlerObjects := handlerObjects s @
              [(n, rxStorageInstanceToReplicationHandler (storageInstance c) (conflictHandler c) (token db))] \<rparr>)"
proof (cases "collections db n")
  case None
  then show ?thesis using missing getReplicationHandler_missing by blast
next
  case (Some c)
  show ?thesis
  proof (cases "replicationHandlerByCollection s n")
    case None
    with Some show ?thesis using created getReplicationHandler_created by blast
  next
    case (Some h)
    with \<open>collections db n = Some c\<close> show ?thesis
      using cached getReplicationHandler_cached by blast
  qed
qed

lemma getReplicationHandler_wf:
  assumes "handlers_wf s"
  shows "handlers_wf (snd (getReplicationHandler db n s))"
proof (cases rule: getReplicationHandler_cases [of db n s])
  case missing
  then show ?thesis using assms by simp
next
  case (cached c h)
  then show ?thesis using assms by simp
next
  case (created c)
  have "handlers_wf (s\<lparr> replicationHandlerByCollection := (replicationHandlerByCollection s)(n \<mapsto> length (handlerObjects s)),
            handlerObjects := handlerObjects s @
              [(n, rxStorageInstanceToReplicationHandler (storageInstance c) (conflictHandler c) (token db))] \<rparr>)"
    using assms created(2)
    unfolding handlers_wf_def
    by (auto simp: nth_append less_Suc_eq)
  then show ?thesis using created(3) by simp
qed

lemma getReplicationHandler_result_in_map:
  "getReplicationHandler db n s = (Inr h, s') \<Longrightarrow> replicationHandlerByCollection s' n = Some h"
  by (cases rule: getReplicationHandler_cases [of db n s]) auto

lemma getReplicationHandler_map_mono:
  "replicationHandlerByCollection s m = Some h \<Longrightarrow>
   replicationHandlerByCollection (snd (getReplicationHandler db n s)) m = Some h"
  by (cases rule: getReplicationHandler_cases [of db n s]) auto

lemma getReplicationHandler_objects_mono:
  "i < length (handlerObjects s) \<Longrightarrow>
   i < length (handlerObjects (snd (getReplicationHandler db n s))) \<and>
   handlerObjects (snd (getReplicationHandler db n s)) ! i = handlerObjects s ! i"
  by (cases rule: getReplicationHandler_cases [of db n s]) (auto simp: nth_append)

lemma getReplicationHandler_other_fields:
  "subscriptions (snd (getReplicationHandler db n s)) = subscriptions s"
  "onCloseHandlers (snd (getReplicationHandler db n s)) = onCloseHandlers s"
  "sent (snd (getReplicationHandler db n s)) = sent s"
  "closed (snd (getReplicationHandler db n s)) = closed s"
  "clients (snd (getReplicationHandler db n s)) = clients s"
  "calls (snd (getReplicationHandler db n s)) = calls s"
  by (cases rule: getReplicationHandler_cases [of db n s]; simp)+

lemma dispatchMessage_eq:
  "dispatchMessage db lookup ws message s =
     (let s' = snd (getReplicationHandler db (msg_collection message) s) in
      case fst (getReplicationHandler db (msg_collection message) s) of
        Inl e \<Rightarrow> (Inl e, s')
      | Inr handler \<Rightarrow>
          (case lookup handler (msg_method message) of
             NotFunction \<Rightarrow>
               (Inr (),
                s'\<lparr> subscriptions := subscriptions s @
                       [\<lparr> sub_handler = handler, sub_ws = ws,
                          sub_collection = msg_collection message, sub_closed = False \<rparr>],
                    onCloseHandlers := (onCloseHandlers s)
                       (ws := onCloseHandlers s ws @ [length (subscriptions s)]) \<rparr>)
           | Function method \<Rightarrow>
               (case method (msg_params message) of
                  Rejects e \<Rightarrow> (Inl (Thrown e), s')
                | Resolves result \<Rightarrow>
                    (Inr (),
                     s'\<lparr> sent := sent s @
                        [(ws, \<lparr> resp_id = msg_id message,
                                 resp_collection = msg_collection message,
                                 resp_result = result \<rparr>)] \<rparr>))))"
  unfolding dispatchMessage_def Let_def
  using getReplicationHandler_other_fields [of db "msg_collection message" s]
  by (cases "getReplicationHandler db (msg_collection message) s")
     (auto split: sum.splits property.splits promise.splits)

lemma handlers_wf_cong:
  "replicationHandlerByCollection s' = replicationHandlerByCollection s \<Longrightarrow>
   handlerObjects s' = handlerObjects s \<Longrightarrow> handlers_wf s' = handlers_wf s"
  by (simp add: handlers_wf_def)

lemma dispatchMessage_handlers:
  "replicationHandlerByCollection (snd (dispatchMessage db lookup ws message s))
     = replicationHandlerByCollection (snd (getReplicationHandler db (msg_collection message) s))"
  "handlerObjects (snd (dispatchMessage db lookup ws message s))
     = handlerObjects (snd (getReplicationHandler db (msg_collection message) s))"
  by (simp_all add: dispatchMessage_eq Let_def split: sum.splits property.splits promise.splits)

lemma dispatchMessage_wf:
  "handlers_wf s \<Longrightarrow> handlers_wf (snd (dispatchMessage db lookup ws message s))"
  using getReplicationHandler_wf [of s db "msg_collection message"]
  by (simp add: handlers_wf_def dispatchMessage_handlers)

lemma onMessage_cases:
  "onMessage options lookup ws req message s = (Inr (), s)
   \<or> (\<exists>e. onMessage options lookup ws req message s = (Inl (Thrown e), s))
   \<or> onMessage options lookup ws req message s = dispatchMessage (database options) lookup ws message s"
  by (simp add: onMessage_def split: option.splits promise.splits)

lemma onMessage_wf:
  "handlers_wf s \<Longrightarrow> handlers_wf (snd (onMessage options lookup ws req message s))"
  using onMessage_cases [of options lookup ws req message s] dispatchMessage_wf [of s]
  by (metis snd_conv)

lemma masterChangeStream_next_fields:
  "replicationHandlerByCollection (masterChangeStream_next h ev s) = replicationHandlerByCollection s"
  "handlerObjects (masterChangeStream_next h ev s) = handlerObjects s"
  "subscriptions (masterChangeStream_next h ev s) = subscriptions s"
  "onCloseHandlers (masterChangeStream_next h ev s) = onCloseHandlers s"
  by (simp_all add: masterChangeStream_next_def)

lemma unsubscribe_fields:
  "replicationHandlerByCollection (unsubscribe i s) = replicationHandlerByCollection s"
  "handlerObjects (unsubscribe i s) = handlerObjects s"
  "onCloseHandlers (unsubscribe i s) = onCloseHandlers s"
  "sent (unsubscribe i s) = sent s"
  "length (subscriptions (unsubscribe i s)) = length (subscriptions s)"
  by (simp_all add: unsubscribe_def)

lemma unsubscribe_nth:
  "j < length (subscriptions s) \<Longrightarrow>
   subscriptions (unsubscribe i s) ! j =
     (if j = i then (subscriptions s ! j)\<lparr> sub_closed := True \<rparr> else subscriptions s ! j)"
  by (simp add: unsubscribe_def)

lemma foldl_unsubscribe_fields:
  "replicationHandlerByCollection (foldl (\<lambda>st i. unsubscribe i st) s is) = replicationHandlerByCollection s"
  "handlerObjects (foldl (\<lambda>st i. unsubscribe i st) s is) = handlerObjects s"
  "onCloseHandlers (foldl (\<lambda>st i. unsubscribe i st) s is) = onCloseHandlers s"
  "sent (foldl (\<lambda>st i. unsubscribe i st) s is) = sent s"
  "length (subscriptions (foldl (\<lambda>st i. unsubscribe i st) s is)) = length (subscriptions s)"
  by (induction "is" arbitrary: s; simp add: unsubscribe_fields)+

lemma foldl_unsubscribe_nth:
  "j < length (subscriptions s) \<Longrightarrow>
   subscriptions (foldl (\<lambda>st i. unsubscribe i st) s is) ! j =
     (if j \<in> set is then (subscriptions s ! j)\<lparr> sub_closed := True \<rparr> else subscriptions s ! j)"
proof (induction "is" arbitrary: s)
  case Nil
  then show ?case by simp
next
  case (Cons i "is")
  have len: "j < length (subscriptions (unsubscribe i s))"
    using Cons.prems by (simp add: unsubscribe_fields)
  show ?case
    using Cons.IH [OF len] Cons.prems
    by (simp add: unsubscribe_nth)
qed

lemma ws_onclose_fields:
  "replicationHandlerByCollection (ws_onclose ws s) = replicationHandlerByCollection s"
  "handlerObjects (ws_onclose ws s) = handlerObjects s"
  "onCloseHandlers (ws_onclose ws s) = onCloseHandlers s"
  "sent (ws_onclose ws s) = sent s"
  "length (subscriptions (ws_onclose ws s)) = length (subscriptions s)"
  by (simp_all add: ws_onclose_def foldl_unsubscribe_fields)

lemma ws_onclose_nth:
  "j < length (subscriptions s) \<Longrightarrow>
   subscriptions (ws_onclose ws s) ! j =
     (if j \<in> set (onCloseHandlers s ws) then (subscriptions s ! j)\<lparr> sub_closed := True \<rparr>
      else subscriptions s ! j)"
  by (simp add: ws_onclose_def foldl_unsubscribe_nth)

lemma server_step_wf: "handlers_wf s \<Longrightarrow> handlers_wf (server_step ev s)"
proof (cases ev)
  case (ClientMessage options lookup ws req message)
  then show "handlers_wf s \<Longrightarrow> ?thesis" by (simp add: onMessage_wf)
next
  case (ChangeEvent h e)
  then show "handlers_wf s \<Longrightarrow> ?thesis"
    by (simp add: handlers_wf_def masterChangeStream_next_fields)
next
  case (SocketClosed ws)
  then show "handlers_wf s \<Longrightarrow> ?thesis"
    by (simp add: handlers_wf_def ws_onclose_fields)
qed

lemma server_run_wf: "handlers_wf s \<Longrightarrow> handlers_wf (server_run evs s)"
  unfolding server_run_def
  by (induction evs arbitrary: s) (simp_all add: server_step_wf)

lemma start_wf: "handlers_wf (fst (startWebsocketServer options))"
  by (simp add: handlers_wf_def startWebsocketServer_def socket_server.extend_def
      websocket_server.fields_def startSocketServer_def)

lemma server_step_map_mono:
  "replicationHandlerByCollection s n = Some h \<Longrightarrow>
   replicationHandlerByCollection (server_step ev s) n = Some h"
proof (cases ev)
  case (ClientMessage options lookup ws req message)
  assume a: "replicationHandlerByCollection s n = Some h"
  show ?thesis
    using onMessage_cases [of options lookup ws req message s] a ClientMessage
      getReplicationHandler_map_mono [OF a, of "database options" "msg_collection message"]
    by (auto simp: dispatchMessage_handlers)
next
  case (ChangeEvent h' e)
  then show "replicationHandlerByCollection s n = Some h \<Longrightarrow> ?thesis"
    by (simp add: masterChangeStream_next_fields)
next
  case (SocketClosed ws)
  then show "replicationHandlerByCollection s n = Some h \<Longrightarrow> ?thesis"
    by (simp add: ws_onclose_fields)
qed

lemma server_run_map_mono:
  "replicationHandlerByCollection s n = Some h \<Longrightarrow>
   replicationHandlerByCollection (server_run evs s) n = Some h"
  unfolding server_run_def
  by (induction evs arbitrary: s) (simp_all add: server_step_map_mono)

lemma onMessage_subs_cases:
  "(subscriptions (snd (onMessage options lookup ws req message s)) = subscriptions s
      \<and> onCloseHandlers (snd (onMessage options lookup ws req message s)) = onCloseHandlers s)
   \<or> (\<exists>h. subscriptions (snd (onMessage options lookup ws req message s)) = subscriptions s @
          [\<lparr> sub_handler = h, sub_ws = ws, sub_collection = msg_collection message, sub_closed = False \<rparr>]
        \<and> onCloseHandlers (snd (onMessage options lookup ws req message s)) = (onCloseHandlers s)
             (ws := onCloseHandlers s ws @ [length (subscriptions s)]))"
  using onMessage_cases [of options lookup ws req message s]
    getReplicationHandler_other_fields(1,2) [of "database options" "msg_collection message" s]
  by (auto simp: dispatchMessage_eq Let_def split: sum.splits property.splits promise.splits)

lemma subs_wf_I:
  assumes "\<And>ws i. i \<in> set (onCloseHandlers s ws) \<Longrightarrow>
             i < length (subscriptions s) \<and> sub_ws (subscriptions s ! i) = ws"
  shows "subs_wf s"
  using assms unfolding subs_wf_def by blast

lemma subs_wf_D:
  assumes "subs_wf s" "i \<in> set (onCloseHandlers s ws)"
  shows "i < length (subscriptions s)" "sub_ws (subscriptions s ! i) = ws"
  using assms unfolding subs_wf_def by blast+

lemma subs_wf_append:
  assumes wf: "subs_wf s"
    and subs: "subscriptions s' = subscriptions s @ [x]"
    and x: "sub_ws x = ws"
    and och: "onCloseHandlers s' = (onCloseHandlers s)
               (ws := onCloseHandlers s ws @ [length (subscriptions s)])"
  shows "subs_wf s'"
proof (rule subs_wf_I)
  fix ws' i
  assume i: "i \<in> set (onCloseHandlers s' ws')"
  show "i < length (subscriptions s') \<and> sub_ws (subscriptions s' ! i) = ws'"
  proof (cases "i \<in> set (onCloseHandlers s ws')")
    case True
    then show ?thesis
      using subs_wf_D [OF wf True] subs by (simp add: nth_append)
  next
    case False
    with i och have "ws' = ws" "i = length (subscriptions s)"
      by (auto split: if_splits)
    then show ?thesis using subs x by simp
  qed
qed

lemma onMessage_subs_wf:
  assumes "subs_wf s"
  shows "subs_wf (snd (onMessage options lookup ws req message s))"
proof -
  let ?s' = "snd (onMessage options lookup ws req message s)"
  from onMessage_subs_cases [of options lookup ws req message s]
  consider (same) "subscriptions ?s' = subscriptions s" "onCloseHandlers ?s' = onCloseHandlers s"
    | (new) h where "subscriptions ?s' = subscriptions s @
          [\<lparr> sub_handler = h, sub_ws = ws, sub_collection = msg_collection message, sub_closed = False \<rparr>]"
        "onCloseHandlers ?s' = (onCloseHandlers s)
             (ws := onCloseHandlers s ws @ [length (subscriptions s)])"
    by blast
  then show ?thesis
  proof cases
    case same
    then show ?thesis using assms by (simp add: subs_wf_def)
  next
    case new
    show ?thesis by (rule subs_wf_append [OF assms new(1) _ new(2)]) simp
  qed
qed

lemma ws_onclose_subs_wf:
  assumes "subs_wf s"
  shows "subs_wf (ws_onclose ws s)"
proof (rule subs_wf_I)
  fix ws' i
  assume "i \<in> set (onCloseHandlers (ws_onclose ws s) ws')"
  then have i: "i \<in> set (onCloseHandlers s ws')" by (simp add: ws_onclose_fields)
  from subs_wf_D [OF assms i]
  show "i < length (subscriptions (ws_onclose ws s)) \<and>
        sub_ws (subscriptions (ws_onclose ws s) ! i) = ws'"
    by (simp add: ws_onclose_fields ws_onclose_nth)
qed

lemma server_step_subs_wf: "subs_wf s \<Longrightarrow> subs_wf (server_step ev s)"
proof (cases ev)
  case (ClientMessage options lookup ws req message)
  then show "subs_wf s \<Longrightarrow> ?thesis" by (simp add: onMessage_subs_wf)
next
  case (ChangeEvent h e)
  then show "subs_wf s \<Longrightarrow> ?thesis"
    by (simp add: subs_wf_def masterChangeStream_next_fields)
next
  case (SocketClosed ws)
  then show "subs_wf s \<Longrightarrow> ?thesis" by (simp add: ws_onclose_subs_wf)
qed

lemma server_run_subs_wf: "subs_wf s \<Longrightarrow> subs_wf (server_run evs s)"
  unfolding server_run_def
  by (induction evs arbitrary: s) (simp_all add: server_step_subs_wf)

lemma start_subs_wf: "subs_wf (fst (startWebsocketServer options))"
  by (simp add: subs_wf_def startWebsocketServer_def socket_server.extend_def
      websocket_server.fields_def startSocketServer_def)

lemma server_step_streaming:
  assumes "streaming n h ws coll s" "subs_wf s" "ev \<noteq> SocketClosed ws"
  shows "streaming n h ws coll (server_step ev s)"
proof (cases ev)
  case (ClientMessage options lookup ws' req message)
  let ?s' = "snd (onMessage options lookup ws' req message s)"
  from onMessage_subs_cases [of options lookup ws' req message s]
  consider (same) "subscriptions ?s' = subscriptions s" "onCloseHandlers ?s' = onCloseHandlers s"
    | (new) h' where "subscriptions ?s' = subscriptions s @
          [\<lparr> sub_handler = h', sub_ws = ws', sub_collection = msg_collection message, sub_closed = False \<rparr>]"
        "onCloseHandlers ?s' = (onCloseHandlers s)
             (ws' := onCloseHandlers s ws' @ [length (subscriptions s)])"
    by blast
  then have "streaming n h ws coll ?s'"
  proof cases
    case same
    then show ?thesis using assms(1) by (simp add: streaming_def)
  next
    case new
    then show ?thesis using assms(1) by (auto simp: streaming_def nth_append)
  qed
  then show ?thesis using ClientMessage by simp
next
  case (ChangeEvent h' e)
  then show ?thesis
    using assms(1) by (simp add: streaming_def masterChangeStream_next_fields)
next
  case (SocketClosed ws')
  with assms(3) have ne: "ws' \<noteq> ws" by simp
  have n: "n < length (subscriptions s)" "sub_ws (subscriptions s ! n) = ws"
    using assms(1) by (simp_all add: streaming_def)
  have "n \<notin> set (onCloseHandlers s ws')"
    using subs_wf_D(2) [OF assms(2), of n ws'] n(2) ne by blast
  then show ?thesis
    using assms(1) SocketClosed
    by (simp add: streaming_def ws_onclose_fields ws_onclose_nth)
qed

lemma server_run_streaming:
  "streaming n h ws coll s \<Longrightarrow> subs_wf s \<Longrightarrow> SocketClosed ws \<notin> set evs \<Longrightarrow>
   streaming n h ws coll (server_run evs s)"
  unfolding server_run_def
proof (induction evs arbitrary: s)
  case Nil
  then show ?case by simp
next
  case (Cons ev evs)
  have "ev \<noteq> SocketClosed ws" using Cons.prems(3) by auto
  then have "streaming n h ws coll (server_step ev s)"
    using Cons.prems(1,2) server_step_streaming by blast
  moreover have "subs_wf (server_step ev s)"
    using Cons.prems(2) by (rule server_step_subs_wf)
  ultimately show ?case using Cons.IH Cons.prems(3) by simp
qed

lemma streaming_next:
  assumes "streaming n h ws coll s"
  shows "(ws, \<lparr> resp_id = ''stream'', resp_collection = coll, resp_result = ev \<rparr>)
           \<in> set (drop (length (sent s)) (sent (masterChangeStream_next h ev s)))"
proof -
  let ?sub = "\<lparr> sub_handler = h, sub_ws = ws, sub_collection = coll, sub_closed = False \<rparr>"
  let ?f = "\<lambda>sub. (sub_ws sub,
                 \<lparr> resp_id = ''stream'', resp_collection = sub_collection sub, resp_result = ev \<rparr>)"
  have "?sub \<in> set (subscriptions s)"
    using assms unfolding streaming_def by (metis nth_mem)
  then have "?sub \<in> set (filter (\<lambda>sub. sub_handler sub = h \<and> \<not> sub_closed sub) (subscriptions s))"
    by simp
  then have "?f ?sub \<in> ?f ` set (filter (\<lambda>sub. sub_handler sub = h \<and> \<not> sub_closed sub) (subscriptions s))"
    by (rule imageI)
  then show ?thesis by (simp add: masterChangeStream_next_def)
qed

lemma streaming_closed:
  assumes "streaming n h ws coll s"
  shows "sub_closed (subscriptions (ws_onclose ws s) ! n)"
  using assms by (simp add: streaming_def ws_onclose_nth)

lemma closed_stays_silent:
  assumes "\<forall>sub \<in> set (subscriptions s). sub_ws sub = ws \<longrightarrow> sub_closed sub"
  shows "\<forall>r. (ws, r) \<notin> set (drop (length (sent s)) (sent (masterChangeStream_next h ev s)))"
  using assms by (auto simp: masterChangeStream_next_def)

lemma server_step_objects_mono:
  assumes "i < length (handlerObjects s)"
  shows "i < length (handlerObjects (server_step ev s)) \<and>
         handlerObjects (server_step ev s) ! i = handlerObjects s ! i"
proof (cases ev)
  case (ClientMessage options lookup ws req message)
  show ?thesis
    using onMessage_cases [of options lookup ws req message s] ClientMessage assms
      getReplicationHandler_objects_mono [OF assms, of "database options" "msg_collection message"]
    by (auto simp: dispatchMessage_handlers)
next
  case (ChangeEvent h e)
  then show ?thesis using assms by (simp add: masterChangeStream_next_fields)
next
  case (SocketClosed ws)
  then show ?thesis using assms by (simp add: ws_onclose_fields)
qed

lemma server_run_objects_mono:
  "i < length (handlerObjects s) \<Longrightarrow>
   i < length (handlerObjects (server_run evs s)) \<and>
   handlerObjects (server_run evs s) ! i = handlerObjects s ! i"
  unfolding server_run_def
proof (induction evs arbitrary: s)
  case Nil
  then show ?case by simp
next
  case (Cons ev evs)
  from server_step_objects_mono [OF Cons.prems, of ev]
  have "i < length (handlerObjects (server_step ev s))"
    "handlerObjects (server_step ev s) ! i = handlerObjects s ! i" by simp_all
  with Cons.IH [of "server_step ev s"] show ?case by simp
qed

lemma handlers_wf_distinct:
  assumes "handlers_wf s"
  shows "distinct (map fst (handlerObjects s))"
proof -
  have "i = j" if "i < length (handlerObjects s)" "j < length (handlerObjects s)"
      "fst (handlerObjects s ! i) = fst (handlerObjects s ! j)" for i j
  proof -
    have "replicationHandlerByCollection s (fst (handlerObjects s ! i)) = Some i"
      "replicationHandlerByCollection s (fst (handlerObjects s ! j)) = Some j"
      using assms that(1,2) unfolding handlers_wf_def by blast+
    with that(3) show ?thesis by (metis option.inject)
  qed
  then show ?thesis unfolding distinct_conv_nth by (auto simp: nth_map)
qed

text \<open>
  Claim C2. Take a state \<open>s1\<close> a server reaches from its start (by any messages,
  stream events and socket closes). \<open>getReplicationHandler\<close> of a name that
  \<open>database.collections\<close> does not hold throws \<open>collection ... does not exist\<close> and
  changes nothing. Of a name \<open>n\<close> it holds, it returns a reference \<open>h\<close> to an
  allocated handler object that was made for \<open>n\<close> and is the map's entry for \<open>n\<close>:
  when the map had no entry, the object is allocated by this call, as
  \<open>rxStorageInstanceToReplicationHandler\<close> of the collection's storage instance and
  conflict handler and the database token; when it had one, nothing is allocated and the
  state does not change. Whatever reaches the server afterwards, the object at \<open>h\<close> stays
  what it is, and every later call with that name, whatever the database then holds
  besides, returns the same \<open>h\<close> and changes nothing. No two allocated handler objects
  were made for the same name.
\<close>

theorem getReplicationHandler_once:
  assumes s1: "s1 = server_run evs1 (fst (startWebsocketServer options))"
    and s1': "s1' = snd (getReplicationHandler db1 n s1)"
    and s2: "s2 = server_run evs2 s1'"
  shows "(collections db1 n = None \<longrightarrow>
            getReplicationHandler db1 n s1 =
              (Inl (Error (''collection '' @ n @ '' does not exist'')), s1))
       \<and> (\<forall>c. collections db1 n = Some c \<longrightarrow>
            (\<exists>h. fst (getReplicationHandler db1 n s1) = Inr h
               \<and> h < length (handlerObjects s1')
               \<and> fst (handlerObjects s1' ! h) = n
               \<and> replicationHandlerByCollection s1' n = Some h
               \<and> (replicationHandlerByCollection s1 n = None \<longrightarrow>
                    h = length (handlerObjects s1)
                    \<and> handlerObjects s1' = handlerObjects s1 @
                         [(n, rxStorageInstanceToReplicationHandler
                                (storageInstance c) (conflictHandler c) (token db1))])
               \<and> (replicationHandlerByCollection s1 n \<noteq> None \<longrightarrow> s1' = s1)
               \<and> h < length (handlerObjects s2)
               \<and> handlerObjects s2 ! h = handlerObjects s1' ! h
               \<and> (collections db2 n \<noteq> None \<longrightarrow>
                    getReplicationHandler db2 n s2 = (Inr h, s2))))
       \<and> distinct (map fst (handlerObjects s2))"
proof (intro conjI impI allI)
  assume "collections db1 n = None"
  then show "getReplicationHandler db1 n s1 =
      (Inl (Error (''collection '' @ n @ '' does not exist'')), s1)"
    by (rule getReplicationHandler_missing)
next
  fix c
  assume present: "collections db1 n = Some c"
  have wf1: "handlers_wf s1" unfolding s1 by (rule server_run_wf [OF start_wf])
  then have wf1': "handlers_wf s1'" unfolding s1' by (rule getReplicationHandler_wf)
  obtain h where r: "getReplicationHandler db1 n s1 = (Inr h, s1')"
    using present s1' by (cases rule: getReplicationHandler_cases [of db1 n s1]) auto
  then have m: "replicationHandlerByCollection s1' n = Some h"
    by (rule getReplicationHandler_result_in_map)
  then have alloc: "h < length (handlerObjects s1')" "fst (handlerObjects s1' ! h) = n"
    using wf1' unfolding handlers_wf_def by blast+
  have fresh: "h = length (handlerObjects s1)
      \<and> handlerObjects s1' = handlerObjects s1 @
           [(n, rxStorageInstanceToReplicationHandler
                  (storageInstance c) (conflictHandler c) (token db1))]"
    if "replicationHandlerByCollection s1 n = None"
    using getReplicationHandler_created [OF present that] r by auto
  have cached: "s1' = s1" if "replicationHandlerByCollection s1 n \<noteq> None"
    using that getReplicationHandler_cached [OF present, of s1] s1' by auto
  have later: "h < length (handlerObjects s2)" "handlerObjects s2 ! h = handlerObjects s1' ! h"
    using server_run_objects_mono [OF alloc(1), of evs2] unfolding s2 by simp_all
  have m2: "replicationHandlerByCollection s2 n = Some h"
    unfolding s2 using m by (rule server_run_map_mono)
  have again: "getReplicationHandler db2 n s2 = (Inr h, s2)" if "collections db2 n \<noteq> None"
    using that getReplicationHandler_cached [OF _ m2] by auto
  show "\<exists>h. fst (getReplicationHandler db1 n s1) = Inr h
               \<and> h < length (handlerObjects s1')
               \<and> fst (handlerObjects s1' ! h) = n
               \<and> replicationHandlerByCollection s1' n = Some h
               \<and> (replicationHandlerByCollection s1 n = None \<longrightarrow>
                    h = length (handlerObjects s1)
                    \<and> handlerObjects s1' = handlerObjects s1 @
                         [(n, rxStorageInstanceToReplicationHandler
                                (storageInstance c) (conflictHandler c) (token db1))])
               \<and> (replicationHandlerByCollection s1 n \<noteq> None \<longrightarrow> s1' = s1)
               \<and> h < length (handlerObjects s2)
               \<and> handlerObjects s2 ! h = handlerObjects s1' ! h
               \<and> (collections db2 n \<noteq> None \<longrightarrow>
                    getReplicationHandler db2 n s2 = (Inr h, s2))"
    using r m alloc fresh cached later again by (intro exI [of _ h]) simp
next
  have "handlers_wf s1" unfolding s1 by (rule server_run_wf [OF start_wf])
  then have "handlers_wf s2" unfolding s2 s1'
    by (intro server_run_wf getReplicationHandler_wf)
  then show "distinct (map fst (handlerObjects s2))" by (rule handlers_wf_distinct)
qed

lemma start_fields:
  "replicationHandlerByCollection (fst (startWebsocketServer options)) = Map.empty"
  "handlerObjects (fst (startWebsocketServer options)) = []"
  "subscriptions (fst (startWebsocketServer options)) = []"
  "onCloseHandlers (fst (startWebsocketServer options)) = (\<lambda>ws. [])"
  "sent (fst (startWebsocketServer options)) = []"
  by (simp_all add: startWebsocketServer_def socket_server.extend_def
      websocket_server.fields_def startSocketServer_def)

lemma humans_database_fields:
  "collections (humans_database handler) ''humans''
     = Some \<lparr> storageInstance = 0, conflictHandler = handler \<rparr>"
  "collections (humans_database handler) ''pets'' = None"
  "token (humans_database handler) = ''token''"
  by (simp_all add: humans_database_def)

lemma first_humans_handler:
  "getReplicationHandler (humans_database handler) ''humans'' (fst (startWebsocketServer options))
   = (Inr 0, (fst (startWebsocketServer options))
        \<lparr> replicationHandlerByCollection := [''humans'' \<mapsto> 0],
           handlerObjects := [(''humans'',
              \<lparr> rh_storageInstance = 0, rh_conflictHandler = handler,
                rh_databaseInstanceToken = ''token'' \<rparr>)] \<rparr>)"
  using getReplicationHandler_created [OF humans_database_fields(1), of "fst (startWebsocketServer options)" handler]
  by (simp add: start_fields humans_database_fields rxStorageInstanceToReplicationHandler_def)

theorem getReplicationHandler_once_witness:
  "fst (getReplicationHandler (humans_database ()) ''humans''
          (fst (startWebsocketServer (open_options ())))) = Inr 0
   \<and> handlerObjects (snd (getReplicationHandler (humans_database ()) ''humans''
          (fst (startWebsocketServer (open_options ())))))
      = [(''humans'', \<lparr> rh_storageInstance = 0, rh_conflictHandler = (),
                         rh_databaseInstanceToken = ''token'' \<rparr>)]
   \<and> getReplicationHandler (humans_database ()) ''humans''
        (server_run [ChangeEvent 0 JNull]
          (snd (getReplicationHandler (humans_database ()) ''humans''
            (fst (startWebsocketServer (open_options ()))))))
      = (Inr 0,
         server_run [ChangeEvent 0 JNull]
          (snd (getReplicationHandler (humans_database ()) ''humans''
            (fst (startWebsocketServer (open_options ()))))))
   \<and> fst (getReplicationHandler (humans_database ()) ''pets''
          (fst (startWebsocketServer (open_options ()))))
      = Inl (Error ''collection pets does not exist'')"
  using getReplicationHandler_once [OF _ refl refl,
      of "server_run [] (fst (startWebsocketServer (open_options ())))"
      "[]" "open_options ()" "humans_database ()" "''humans''" "[ChangeEvent 0 JNull]"
      "humans_database ()"]
    getReplicationHandler_once [OF _ refl refl,
      of "server_run [] (fst (startWebsocketServer (open_options ())))"
      "[]" "open_options ()" "humans_database ()" "''pets''" "[]" "humans_database ()"]
  by (simp add: server_run_def first_humans_handler humans_database_fields start_fields
      masterChangeStream_next_def rxStorageInstanceToReplicationHandler_def)


subsection \<open>The conflict handler a replication handler is given\<close>

text \<open>
  Claim C1, as amended. When \<open>getReplicationHandler\<close> creates the handler object of a
  collection, the conflict handler it injects is that collection's \<open>conflictHandler\<close>,
  passed through as it is, and the object keeps it whatever reaches the server later. So
  the injected handler is deterministic exactly when the collection's handler is; the
  server neither checks nor enforces it.
\<close>

theorem injected_conflictHandler_passed_through:
  assumes c: "collections db n = Some c"
    and fresh: "replicationHandlerByCollection s n = None"
    and later: "s' = server_run evs (snd (getReplicationHandler db n s))"
  shows "fst (getReplicationHandler db n s) = Inr (length (handlerObjects s))
       \<and> injected_conflictHandler s' (length (handlerObjects s)) = conflictHandler c
       \<and> (deterministic (injected_conflictHandler s' (length (handlerObjects s)))
            \<longleftrightarrow> deterministic (conflictHandler c))"
proof -
  let ?s1 = "snd (getReplicationHandler db n s)"
  let ?h = "length (handlerObjects s)"
  note created = getReplicationHandler_created [OF c fresh]
  have h: "?h < length (handlerObjects ?s1)" using created by simp
  have obj: "handlerObjects ?s1 ! ?h =
      (n, rxStorageInstanceToReplicationHandler (storageInstance c) (conflictHandler c) (token db))"
    using created by simp
  from server_run_objects_mono [OF h, of evs]
  have "handlerObjects s' ! ?h = handlerObjects ?s1 ! ?h" unfolding later by simp
  with obj have inj: "injected_conflictHandler s' ?h = conflictHandler c"
    by (simp add: injected_conflictHandler_def rxStorageInstanceToReplicationHandler_def)
  show ?thesis using created inj by simp
qed

theorem injected_conflictHandler_passed_through_witness:
  "injected_conflictHandler
     (server_run [ChangeEvent 0 JNull]
        (snd (getReplicationHandler (humans_database fork_wins) ''humans''
           (fst (startWebsocketServer (open_options fork_wins)))))) 0 = fork_wins
   \<and> deterministic (injected_conflictHandler
     (server_run [ChangeEvent 0 JNull]
        (snd (getReplicationHandler (humans_database fork_wins) ''humans''
           (fst (startWebsocketServer (open_options fork_wins)))))) 0)"
proof -
  have det: "deterministic fork_wins"
    by (simp add: deterministic_def fork_wins_def)
  show ?thesis
    using injected_conflictHandler_passed_through [OF humans_database_fields(1) _ refl,
        of "fst (startWebsocketServer (open_options fork_wins))" fork_wins "[ChangeEvent 0 JNull]"]
      det
    by (simp add: start_fields)
qed

text \<open>
  The claim as stated fails: for a collection whose conflict handler decides by a clock,
  the server creates the replication handler all the same, and two calls of the injected
  handler on the same three inputs give different outcomes.
\<close>

theorem injected_conflictHandler_counterexample:
  "fst (getReplicationHandler (humans_database by_clock) ''humans''
          (fst (startWebsocketServer (open_options by_clock)))) = Inr 0
   \<and> fst (injected_conflictHandler
            (snd (getReplicationHandler (humans_database by_clock) ''humans''
               (fst (startWebsocketServer (open_options by_clock))))) 0 1 2 (Some 1) 0)
       = Resolved 2
   \<and> fst (injected_conflictHandler
            (snd (getReplicationHandler (humans_database by_clock) ''humans''
               (fst (startWebsocketServer (open_options by_clock))))) 0 1 2 (Some 1) 1)
       = Resolved 1
   \<and> \<not> deterministic (injected_conflictHandler
            (snd (getReplicationHandler (humans_database by_clock) ''humans''
               (fst (startWebsocketServer (open_options by_clock))))) 0)"
proof -
  have "\<not> deterministic by_clock"
  proof
    assume "deterministic by_clock"
    then have "fst (by_clock 1 2 (Some 1) 0) = fst (by_clock 1 2 (Some 1) 1)"
      unfolding deterministic_def by blast
    then show False by (simp add: by_clock_def)
  qed
  then show ?thesis
    by (simp add: first_humans_handler injected_conflictHandler_def by_clock_def)
qed


subsection \<open>The message handler\<close>

lemma onMessage_allowed:
  assumes "collectionRules options = None \<or>
           (\<exists>rules. collectionRules options = Some rules \<and>
              rules req (msg_collection message) = Resolves True)"
  shows "onMessage options lookup ws req message s
           = dispatchMessage (database options) lookup ws message s"
  using assms by (auto simp: onMessage_def)

lemma onMessage_denied:
  assumes "collectionRules options = Some rules"
    "rules req (msg_collection message) = Resolves False"
  shows "onMessage options lookup ws req message s = (Inr (), s)"
  using assms by (simp add: onMessage_def)

lemma onMessage_compiled_dispatches:
  "onMessage_compiled options lookup ws req message s
     = dispatchMessage (database options) lookup ws message s"
  by (simp add: onMessage_compiled_def promise_truthy_def split: option.splits)

lemma compiled_agrees_when_allowed:
  assumes "collectionRules options = None \<or>
           (\<exists>rules. collectionRules options = Some rules \<and>
              rules req (msg_collection message) = Resolves True)"
  shows "onMessage_compiled options lookup ws req message s
           = onMessage options lookup ws req message s"
  using onMessage_allowed [OF assms] by (simp add: onMessage_compiled_dispatches)

lemma onMessage_denying:
  "onMessage (denying_options handler) lookup ws req message s = (Inr (), s)"
  by (simp add: onMessage_def denying_options_def)

lemma denying_options_database: "database (denying_options handler) = humans_database handler"
  by (simp add: denying_options_def)

lemma dispatch_pull_message:
  "dispatchMessage (humans_database handler) handler_properties ws pull_message
     (fst (startWebsocketServer options))
   = (Inr (), (fst (startWebsocketServer options))
        \<lparr> replicationHandlerByCollection := [''humans'' \<mapsto> 0],
           handlerObjects := [(''humans'',
              \<lparr> rh_storageInstance = 0, rh_conflictHandler = handler,
                rh_databaseInstanceToken = ''token'' \<rparr>)],
           sent := [(ws, \<lparr> resp_id = ''42'', resp_collection = ''humans'',
                            resp_result = JObject 5 \<rparr>)] \<rparr>)"
  by (simp add: dispatchMessage_def pull_message_def first_humans_handler handler_properties_def
      start_fields)

text \<open>
  Claim C3. The compiled handler is not equivalent to the TypeScript handler. With
  \<open>collectionRules: async () => false\<close> and a \<open>masterChangesSince\<close> request for the
  collection \<open>humans\<close>, the TypeScript handler returns at the access check and sends
  nothing, while the compiled handler, which tests the promise and not its value, calls the
  method and sends the response.
\<close>

theorem compiled_handler_skips_access_denial:
  "onMessage (denying_options ()) handler_properties 1 (JObject 9) pull_message
     (fst (startWebsocketServer (denying_options ())))
     = (Inr (), fst (startWebsocketServer (denying_options ())))
   \<and> sent (fst (startWebsocketServer (denying_options ()))) = []
   \<and> fst (onMessage_compiled (denying_options ()) handler_properties 1 (JObject 9) pull_message
          (fst (startWebsocketServer (denying_options ())))) = Inr ()
   \<and> sent (snd (onMessage_compiled (denying_options ()) handler_properties 1 (JObject 9) pull_message
          (fst (startWebsocketServer (denying_options ())))))
       = [(1, \<lparr> resp_id = ''42'', resp_collection = ''humans'', resp_result = JObject 5 \<rparr>)]"
  by (simp add: onMessage_denying onMessage_compiled_dispatches denying_options_database
      dispatch_pull_message start_fields)

text \<open>
  Claim C6, as amended. For a message that passes the access check (no
  \<open>collectionRules\<close>, or its promise resolves to true), whose collection has the
  replication handler \<open>h\<close> and whose method names a function of it, the server calls that
  function with the message's \<open>params\<close>. When the call resolves, exactly one response is
  sent, on the same socket, with the request's id and collection and the value the call
  resolved to; when it rejects, the handler rejects with that reason and nothing is sent.
  No subscription is made either way.
\<close>

theorem method_call_response:
  assumes gate: "collectionRules options = None \<or>
           (\<exists>rules. collectionRules options = Some rules \<and>
              rules req (msg_collection message) = Resolves True)"
    and h: "fst (getReplicationHandler (database options) (msg_collection message) s) = Inr h"
    and fn: "lookup h (msg_method message) = Function method"
  shows "case method (msg_params message) of
           Resolves result \<Rightarrow>
             fst (onMessage options lookup ws req message s) = Inr ()
             \<and> sent (snd (onMessage options lookup ws req message s)) =
                 sent s @ [(ws, \<lparr> resp_id = msg_id message,
                                   resp_collection = msg_collection message,
                                   resp_result = result \<rparr>)]
             \<and> subscriptions (snd (onMessage options lookup ws req message s)) = subscriptions s
         | Rejects e \<Rightarrow>
             fst (onMessage options lookup ws req message s) = Inl (Thrown e)
             \<and> sent (snd (onMessage options lookup ws req message s)) = sent s
             \<and> subscriptions (snd (onMessage options lookup ws req message s)) = subscriptions s"
  using h fn getReplicationHandler_other_fields(1,3) [of "database options" "msg_collection message" s]
  by (simp add: onMessage_allowed [OF gate] dispatchMessage_eq Let_def split: promise.splits)

theorem method_call_response_witness:
  "fst (onMessage (allowing_options ()) handler_properties 1 (JObject 9) pull_message
          (fst (startWebsocketServer (allowing_options ())))) = Inr ()
   \<and> sent (snd (onMessage (allowing_options ()) handler_properties 1 (JObject 9) pull_message
          (fst (startWebsocketServer (allowing_options ())))))
       = [(1, \<lparr> resp_id = ''42'', resp_collection = ''humans'', resp_result = JObject 5 \<rparr>)]"
  using method_call_response [of "allowing_options ()" "JObject 9" pull_message
      "fst (startWebsocketServer (allowing_options ()))" 0 handler_properties
      "\<lambda>params. Resolves (JObject 5)" 1]
  by (simp add: allowing_options_def first_humans_handler pull_message_def handler_properties_def
      start_fields)

text \<open>
  The claim as stated fails at the access check: a \<open>masterChangesSince\<close> request for an
  existing collection, under \<open>collectionRules: async () => false\<close>, is ignored; no
  function is called and no response is sent.
\<close>

theorem method_call_response_counterexample:
  "handler_properties 0 (msg_method pull_message) \<noteq> NotFunction
   \<and> collections (database (denying_options ())) (msg_collection pull_message) \<noteq> None
   \<and> onMessage (denying_options ()) handler_properties 1 (JObject 9) pull_message
        (fst (startWebsocketServer (denying_options ())))
       = (Inr (), fst (startWebsocketServer (denying_options ())))
   \<and> sent (fst (startWebsocketServer (denying_options ()))) = []"
  by (simp add: onMessage_denying denying_options_database start_fields handler_properties_def
      pull_message_def humans_database_def)


subsection \<open>The change stream\<close>

lemma dispatch_stream_request:
  assumes h: "fst (getReplicationHandler db (msg_collection message) s) = Inr h"
    and notfn: "lookup h (msg_method message) = NotFunction"
  shows "fst (dispatchMessage db lookup ws message s) = Inr ()"
    and "streaming (length (subscriptions s)) h ws (msg_collection message)
           (snd (dispatchMessage db lookup ws message s))"
    and "sent (snd (dispatchMessage db lookup ws message s)) = sent s"
  using h notfn getReplicationHandler_other_fields(3) [of db "msg_collection message" s]
  by (simp_all add: dispatchMessage_eq Let_def streaming_def)

text \<open>
  Claim C4, as amended. Take a server state reached from the start, and a message that
  passes the access check (no \<open>collectionRules\<close>, or its promise resolves to true), whose
  collection has the replication handler \<open>h\<close> and whose method does not name a function
  of it. The handler sends no response of its own and subscribes to \<open>h\<close>'s
  \<open>masterChangeStream$\<close>: whatever reaches the server afterwards, as long as the
  client's socket has not closed, the subscription is open and every event \<open>ev\<close> the
  stream emits is sent to that client as a response with id \<open>stream\<close>, the request's
  collection and \<open>ev\<close>; when the socket closes, the subscription is unsubscribed.
\<close>

theorem stream_request_subscribes:
  assumes gate: "collectionRules options = None \<or>
           (\<exists>rules. collectionRules options = Some rules \<and>
              rules req (msg_collection message) = Resolves True)"
    and reach: "s = server_run evs0 (fst (startWebsocketServer options0))"
    and h: "fst (getReplicationHandler (database options) (msg_collection message) s) = Inr h"
    and notfn: "lookup h (msg_method message) = NotFunction"
    and later: "s' = server_run evs (snd (onMessage options lookup ws req message s))"
    and noclose: "SocketClosed ws \<notin> set evs"
  shows "fst (onMessage options lookup ws req message s) = Inr ()
       \<and> sent (snd (onMessage options lookup ws req message s)) = sent s
       \<and> \<not> sub_closed (subscriptions s' ! length (subscriptions s))
       \<and> (ws, \<lparr> resp_id = ''stream'', resp_collection = msg_collection message, resp_result = ev \<rparr>)
            \<in> set (drop (length (sent s')) (sent (server_step (ChangeEvent h ev) s')))
       \<and> sub_closed (subscriptions (server_step (SocketClosed ws) s') ! length (subscriptions s))"
proof -
  let ?s1 = "snd (onMessage options lookup ws req message s)"
  let ?n = "length (subscriptions s)"
  have eq: "onMessage options lookup ws req message s
      = dispatchMessage (database options) lookup ws message s"
    by (rule onMessage_allowed [OF gate])
  have wf: "subs_wf s" unfolding reach by (rule server_run_subs_wf [OF start_subs_wf])
  then have wf1: "subs_wf ?s1" by (rule onMessage_subs_wf)
  have "streaming ?n h ws (msg_collection message) ?s1"
    unfolding eq using h notfn by (rule dispatch_stream_request(2))
  then have str: "streaming ?n h ws (msg_collection message) s'"
    unfolding later using wf1 noclose by (rule server_run_streaming)
  have "\<not> sub_closed (subscriptions s' ! ?n)"
    using str by (simp add: streaming_def)
  moreover have "(ws, \<lparr> resp_id = ''stream'', resp_collection = msg_collection message, resp_result = ev \<rparr>)
      \<in> set (drop (length (sent s')) (sent (server_step (ChangeEvent h ev) s')))"
    using streaming_next [OF str] by simp
  moreover have "sub_closed (subscriptions (server_step (SocketClosed ws) s') ! ?n)"
    using streaming_closed [OF str] by simp
  ultimately show ?thesis
    using dispatch_stream_request(1) [of "database options" message s h lookup ws]
      dispatch_stream_request(3) [of "database options" message s h lookup ws] h notfn eq
    by simp
qed

lemma onMessage_open_options:
  "onMessage (open_options handler) lookup ws req message s
     = dispatchMessage (humans_database handler) lookup ws message s"
  by (simp add: onMessage_def open_options_def)

lemma dispatch_stream_message:
  "dispatchMessage (humans_database handler) handler_properties ws stream_message
     (fst (startWebsocketServer options))
   = (Inr (), (fst (startWebsocketServer options))
        \<lparr> replicationHandlerByCollection := [''humans'' \<mapsto> 0],
           handlerObjects := [(''humans'',
              \<lparr> rh_storageInstance = 0, rh_conflictHandler = handler,
                rh_databaseInstanceToken = ''token'' \<rparr>)],
           subscriptions := [\<lparr> sub_handler = 0, sub_ws = ws, sub_collection = ''humans'',
                               sub_closed = False \<rparr>],
           onCloseHandlers := (\<lambda>ws. [])(ws := [0]) \<rparr>)"
  by (simp add: dispatchMessage_def stream_message_def first_humans_handler handler_properties_def
      start_fields)

theorem stream_request_subscribes_witness:
  "sent (server_step (ChangeEvent 0 (JNum 7))
      (snd (onMessage (open_options ()) handler_properties 1 (JObject 9) stream_message
         (fst (startWebsocketServer (open_options ()))))))
     = [(1, \<lparr> resp_id = ''stream'', resp_collection = ''humans'', resp_result = JNum 7 \<rparr>)]
   \<and> sub_closed (subscriptions (server_step (SocketClosed 1)
      (snd (onMessage (open_options ()) handler_properties 1 (JObject 9) stream_message
         (fst (startWebsocketServer (open_options ())))))) ! 0)
   \<and> sent (server_step (ChangeEvent 0 (JNum 8)) (server_step (SocketClosed 1)
      (snd (onMessage (open_options ()) handler_properties 1 (JObject 9) stream_message
         (fst (startWebsocketServer (open_options ()))))))) = []"
  using stream_request_subscribes [of "open_options ()" "JObject 9" stream_message
      "fst (startWebsocketServer (open_options ()))" "[]" "open_options ()" 0 handler_properties
      "snd (onMessage (open_options ()) handler_properties 1 (JObject 9) stream_message
         (fst (startWebsocketServer (open_options ()))))" "[]" 1 "JNum 7"]
  by (simp add: onMessage_open_options dispatch_stream_message server_run_def
      masterChangeStream_next_def ws_onclose_def unsubscribe_def start_fields)

text \<open>
  The claim as stated fails at the access check: a stream request for an existing
  collection, under \<open>collectionRules: async () => false\<close>, is ignored; no subscription
  is made and a later event of the stream is sent to nobody.
\<close>

theorem stream_request_counterexample:
  "handler_properties 0 (msg_method stream_message) = NotFunction
   \<and> collections (database (denying_options ())) (msg_collection stream_message) \<noteq> None
   \<and> subscriptions (server_run
        [ClientMessage (denying_options ()) handler_properties 1 (JObject 9) stream_message]
        (fst (startWebsocketServer (denying_options ())))) = []
   \<and> sent (server_run
        [ClientMessage (denying_options ()) handler_properties 1 (JObject 9) stream_message,
         ChangeEvent 0 (JNum 7)]
        (fst (startWebsocketServer (denying_options ())))) = []"
  by (simp add: server_run_def onMessage_denying denying_options_database start_fields
      handler_properties_def stream_message_def humans_database_def masterChangeStream_next_def)

section \<open>Properties of the LokiJS sort comparator\<close>

lemma sortOptions_find_values:
  "sortOptions_find sortOptions a b c = c
   \<or> sortOptions_find sortOptions a b c = 1
   \<or> sortOptions_find sortOptions a b c = - 1"
  by (induction sortOptions) (auto simp: Let_def)

lemma sortOptions_find_spec:
  "sortOptions_find sortOptions a b c =
     (case order_by_first_difference sortOptions a b of None \<Rightarrow> c | Some r \<Rightarrow> r)"
  by (induction sortOptions)
     (auto simp: Let_def order_by_first_difference_def first_difference_def js_strict_eq_def
        split: prod.splits)

lemma order_by_first_difference_values:
  "order_by_first_difference sortOptions a b = Some r \<Longrightarrow> r = 1 \<or> r = - 1"
  by (auto simp: order_by_first_difference_def Let_def split: option.splits prod.splits if_splits)

lemma first_difference_exists:
  assumes "primaryPath \<in> fst ` set sortOptions"
    and "getProperty a primaryPath \<noteq> getProperty b primaryPath"
  shows "first_difference sortOptions a b \<noteq> None"
  using assms by (auto simp: first_difference_def find_None_iff)

text \<open>
  Claim C7. For a query with sort parts, \<open>getLokiSortComparator\<close> returns a
  comparator that orders any two documents by the first sort part on whose field they
  differ: \<open>1\<close> or \<open>-1\<close> by \<open>>\<close> on the two values, negated for a descending
  part; it throws \<open>SNH\<close> exactly when the documents are equal on every sort field, and it
  never returns zero. When the primary key is among the sort fields, two documents with
  different primary keys get \<open>1\<close> or \<open>-1\<close>, so the error branch is not reached.
\<close>

theorem getLokiSortComparator_never_ties:
  assumes pk: "primaryPath \<in> fst ` set sortOptions"
    and distinct_docs: "getProperty a primaryPath \<noteq> getProperty b primaryPath"
  shows "\<exists>comparator.
           getLokiSortComparator (Some sortOptions) = Inr comparator
         \<and> (\<forall>x y. comparator x y =
               (case order_by_first_difference sortOptions x y of
                  None \<Rightarrow> Inl (RxError ''SNH'') | Some r \<Rightarrow> Inr r))
         \<and> (\<forall>x y. comparator x y \<noteq> Inr 0)
         \<and> (\<exists>r. comparator a b = Inr r \<and> (r = 1 \<or> r = - 1))"
proof -
  let ?comparator = "\<lambda>x y.
            let compareResult = sortOptions_find sortOptions x y 0
            in if compareResult = 0 then Inl (RxError ''SNH'') else Inr compareResult"
  have made: "getLokiSortComparator (Some sortOptions) = Inr ?comparator"
    by (simp add: getLokiSortComparator_def)
  have spec: "?comparator x y =
      (case order_by_first_difference sortOptions x y of
         None \<Rightarrow> Inl (RxError ''SNH'') | Some r \<Rightarrow> Inr r)" for x y
    using order_by_first_difference_values [of sortOptions x y]
    by (auto simp: sortOptions_find_spec Let_def split: option.splits)
  have nonzero: "?comparator x y \<noteq> Inr 0" for x y
    by (simp add: Let_def)
  from first_difference_exists [OF pk distinct_docs]
  obtain r where r: "order_by_first_difference sortOptions a b = Some r"
    by (auto simp: order_by_first_difference_def split: option.splits prod.splits)
  then have "r = 1 \<or> r = - 1" by (rule order_by_first_difference_values)
  moreover have "?comparator a b = Inr r" using spec [of a b] r by simp
  ultimately have "\<exists>r. ?comparator a b = Inr r \<and> (r = 1 \<or> r = - 1)" by blast
  with made spec nonzero show ?thesis by blast
qed

lemma alice_bob:
  "getProperty alice ''id'' = JStr ''alice''" "getProperty bob ''id'' = JStr ''bob''"
  "getProperty alice ''age'' = JNum 30" "getProperty bob ''age'' = JNum 30"
  by (simp_all add: getProperty_def alice_def bob_def)


theorem getLokiSortComparator_never_ties_witness:
  "(case getLokiSortComparator (Some by_age_then_id) of
      Inl e \<Rightarrow> False
    | Inr comparator \<Rightarrow> comparator alice bob = Inr (- 1) \<and> comparator bob alice = Inr 1)
   \<and> order_by_first_difference by_age_then_id alice bob = Some (- 1)"
  using getLokiSortComparator_never_ties [of "''id''" by_age_then_id alice bob]
  by (simp add: getLokiSortComparator_def by_age_then_id_def alice_bob js_gt_def js_strict_eq_def
      order_by_first_difference_def first_difference_def)

section \<open>Properties of the Dexie query\<close>



lemma set_insert_sorted: "set (insert_sorted comparator x ys) = insert x (set ys)"
  by (induction ys) auto

lemma set_js_sort: "set (js_sort comparator xs) = set xs"
  by (induction xs) (simp_all add: js_sort_def set_insert_sorted)

lemma length_insert_sorted: "length (insert_sorted comparator x ys) = Suc (length ys)"
  by (induction ys) auto

lemma length_js_sort: "length (js_sort comparator xs) = length xs"
  by (induction xs) (simp_all add: js_sort_def length_insert_sorted)






lemma expected_documents_set:
  "set (expected_documents matches comparator skip_n limit_n docs)
     \<subseteq> {d \<in> set docs. \<not> js_truthy (getProperty d ''_deleted'') \<and> matches d}"
proof -
  have "set (expected_documents matches comparator skip_n limit_n docs)
      \<subseteq> set (js_sort comparator
            (filter (\<lambda>d. \<not> js_truthy (getProperty d ''_deleted'') \<and> matches d) docs))"
    by (auto simp: expected_documents_def Let_def split: enat.splits
        dest: in_set_takeD in_set_dropD)
  then show ?thesis by (simp add: set_js_sort subset_iff)
qed

lemma expected_documents_length:
  "enat (length (expected_documents matches comparator skip_n limit_n docs)) \<le> limit_n"
  by (simp add: expected_documents_def Let_def split: enat.splits)




























section \<open>Properties of the LokiJS storage\<close>

subsection \<open>Waiting for a leader\<close>

lemma waitUntilHasLeader_found:
  assumes "has_leader_or_gone (polls n)"
    and "\<forall>j. i \<le> j \<and> j < n \<longrightarrow> \<not> has_leader_or_gone (polls j)"
    and "i \<le> n"
  shows "waitUntilHasLeader polls i = Some n"
  using assms
proof (induction "n - i" arbitrary: i)
  case 0
  then have "i = n" by simp
  then show ?case using "0.prems"(1) by (subst waitUntilHasLeader.simps) simp
next
  case (Suc d)
  then have less: "i < n" by simp
  then have "\<not> has_leader_or_gone (polls i)" using Suc.prems(2) by simp
  moreover have "waitUntilHasLeader polls (Suc i) = Some n"
    using Suc.hyps(1) [of "Suc i"] Suc.hyps(2) Suc.prems less by simp
  ultimately show ?case by (subst waitUntilHasLeader.simps) simp
qed




subsection \<open>The local state\<close>










subsection \<open>Requests to the leading instance\<close>

lemma remove1_last: "x \<notin> set xs \<Longrightarrow> remove1 x (xs @ [x]) = xs"
  by (simp add: remove1_append)

lemma race_winner:
  "race messageType requestId events = Some w \<Longrightarrow>
   (w = \<lparr> wp_retry = True, wp_result = JUndefined, wp_error = JUndefined \<rparr>)
   \<or> (\<exists>res. w = \<lparr> wp_retry = False, wp_result = JUndefined, wp_error = res \<rparr>)
   \<or> (\<exists>res. w = \<lparr> wp_retry = False, wp_result = res, wp_error = JUndefined \<rparr>)"
proof (induction events)
  case Nil
  then show ?case by simp
next
  case (Cons ev events)
  then show ?case
    by (cases ev) (auto split: option.splits if_splits)
qed

text \<open>
  A call whose wait for a leader returns and whose race is won by \<open>w\<close> settles as the
  callback of \<open>then\<close> decides, after both listeners of the call are removed (the
  listeners are objects of their own, not on the channel before the call) and with the
  request posted.
\<close>

lemma requestRemoteInstance_settles:
  assumes elector: "ri_leaderElector inst"
    and leader: "waitUntilHasLeader (re_polls env) 0 = Some i"
    and fresh: "WhenDeathListener (re_requestId env) \<notin> set (internalListeners channel)"
      "ResponseListener (re_requestId env) \<notin> set (messageListeners channel)"
    and won: "race (if isRxStorageInstanceLoki inst then LOKI_BROADCAST_CHANNEL_MESSAGE_TYPE
                    else LOKI_KEY_OBJECT_BROADCAST_CHANNEL_MESSAGE_TYPE)
                (re_requestId env) (re_events env) = Some w"
  shows "\<exists>channel'. requestRemoteInstance env inst operation params channel =
           Some (if wp_retry w then re_runOperation env operation params
                 else if js_truthy (wp_error w) then Inl (ThrownValue (wp_error w))
                 else Inr (wp_result w), channel')
         \<and> internalListeners channel' = internalListeners channel
         \<and> messageListeners channel' = messageListeners channel
         \<and> length (posted channel') = Suc (length (posted channel))"
  using assms
  by (simp add: requestRemoteInstance_def Let_def firstResolved_outcome_def remove1_last)

lemma other_leads_found: "waitUntilHasLeader other_leads 0 = Some 0"
  by (rule waitUntilHasLeader_found) (simp_all add: other_leads_def has_leader_or_gone_def)

lemma race_error_response:
  "race LOKI_BROADCAST_CHANNEL_MESSAGE_TYPE ''k3x9w2p7q5zt'' [error_response res]
     = Some \<lparr> wp_retry = False, wp_result = JUndefined, wp_error = res \<rparr>"
  by (simp add: error_response_def js_strict_eq_def)

text \<open>
  Claim C9. A response that is marked as an error is thrown only when its \<open>result\<close> is
  truthy. For the response \<open>{response: true, isError: true, result: null}\<close> to the
  call's request, \<open>requestRemoteInstance\<close> resolves to \<open>undefined\<close> instead of
  throwing; with the error object 3 as \<open>result\<close> it throws that object. In both runs
  the listeners are gone and the request is posted.
\<close>

theorem falsy_error_response_is_returned:
  "requestRemoteInstance (answered_by [error_response JNull]) follower ''query'' [JObject 2]
     quiet_channel
   = Some (Inr JUndefined, quiet_channel\<lparr> posted := [query_request] \<rparr>)
   \<and> requestRemoteInstance (answered_by [error_response (JObject 3)]) follower ''query''
       [JObject 2] quiet_channel
     = Some (Inl (ThrownValue (JObject 3)), quiet_channel\<lparr> posted := [query_request] \<rparr>)"
  by (simp add: requestRemoteInstance_def Let_def answered_by_def follower_def other_leads_found
      error_response_def js_strict_eq_def firstResolved_outcome_def quiet_channel_def
      query_request_def)

end
